theory Spec2Isabelle
  imports Main
begin

section \<open>Data model (model/schema.js)\<close>

text \<open>
  The three SQLite tables of \<^verbatim>\<open>model/schema.js\<close> are lists of rows in insertion (rowid)
  order. An instant is an integer count of milliseconds since the Unix epoch, the time
  value of a JavaScript \<^verbatim>\<open>Date\<close>; the ISO-8601 text exchanged over HTTP and the
  instant it denotes are identified (a text with more than three fractional digits,
  which JavaScript and SQLite round differently, is outside the model). A \<^verbatim>\<open>Date\<close>
  holds the instants up to 8.64e15 milliseconds either side of the epoch
  (\<open>valid_time_value\<close>); SQLite's date functions and the four-digit year of an ISO
  text cover the years 0000 to 9999 (\<open>four_digit_year\<close>). Below 2^53 the arithmetic
  of JavaScript numbers on integers is exact, and a sum beyond it is beyond the range of
  \<^verbatim>\<open>Date\<close> as well.
\<close>

datatype status = Pending | Confirmed | Completed | Cancelled

record restaurant =
  r_id :: int
  name :: string
  opening_time :: string
  closing_time :: string
  r_created_at :: string

record table =
  t_id :: int
  t_restaurant_id :: int
  table_number :: int
  capacity :: int

record reservation =
  res_id :: int
  restaurant_id :: int
  table_id :: int
  customer_name :: string
  phone :: string
  party_size :: int
  start_time :: int
  duration_minutes :: int
  status :: status
  created_at :: string

text \<open>
  The \<open>seq_\<close> fields are the \<^verbatim>\<open>AUTOINCREMENT\<close> counters: an insert takes the
  counter plus one as the new \<^verbatim>\<open>id\<close>.
\<close>

record db =
  restaurants :: "restaurant list"
  tables :: "table list"
  reservations :: "reservation list"
  seq_restaurants :: int
  seq_tables :: int
  seq_reservations :: int

definition empty_db :: db where
  "empty_db = \<lparr>restaurants = [], tables = [], reservations = [],
     seq_restaurants = 0, seq_tables = 0, seq_reservations = 0\<rparr>"

text \<open>
  Every handler answers with one HTTP status. The failures are values; the constructor
  arguments are what the message interpolates.
\<close>

datatype error =
    ZodError
  | InvalidUrlId
  | RestaurantNotFound
  | TableNotFound
  | CapacityExceeded int int
  | OutOfHours string string
  | Conflict
  | DuplicateTable int
  | BadDateFormat
  | MissingParams
  | ReservationNotFound
  | InternalError

fun http_status :: "error \<Rightarrow> nat" where
  "http_status ZodError = 400"
| "http_status InvalidUrlId = 400"
| "http_status RestaurantNotFound = 404"
| "http_status TableNotFound = 404"
| "http_status (CapacityExceeded c p) = 400"
| "http_status (OutOfHours a b) = 400"
| "http_status Conflict = 409"
| "http_status (DuplicateTable n) = 409"
| "http_status BadDateFormat = 400"
| "http_status MissingParams = 400"
| "http_status ReservationNotFound = 404"
| "http_status InternalError = 500"

section \<open>JavaScript strings and numbers\<close>

definition is_digit :: "char \<Rightarrow> bool" where
  "is_digit c = (c \<in> set ''0123456789'')"

definition digit_char :: "nat \<Rightarrow> char" where
  "digit_char n = char_of (48 + n)"

text \<open>\<^verbatim>\<open>Number.prototype.toString\<close> on a non-negative integer: its decimal digits.\<close>

fun toString :: "nat \<Rightarrow> string" where
  "toString n = (if n < 10 then [digit_char n] else toString (n div 10) @ [digit_char (n mod 10)])"

declare toString.simps [simp del]

text \<open>\<^verbatim>\<open>String.prototype.padStart\<close> with a one-character filler.\<close>

definition padStart :: "nat \<Rightarrow> char \<Rightarrow> string \<Rightarrow> string" where
  "padStart n c s = replicate (n - length s) c @ s"

text \<open>
  The relational operators on two strings compare code units from the left; a proper
  prefix is smaller. \<^verbatim>\<open>a >= b\<close> is \<^verbatim>\<open>!(a < b)\<close> and \<^verbatim>\<open>a <= b\<close> is \<^verbatim>\<open>!(b < a)\<close>.
\<close>

fun str_less :: "string \<Rightarrow> string \<Rightarrow> bool" where
  "str_less [] [] = False"
| "str_less [] (y # ys) = True"
| "str_less (x # xs) [] = False"
| "str_less (x # xs) (y # ys) =
     (if x = y then str_less xs ys else (of_char x :: nat) < of_char y)"

definition str_ge :: "string \<Rightarrow> string \<Rightarrow> bool" where
  "str_ge a b = (\<not> str_less a b)"

definition str_le :: "string \<Rightarrow> string \<Rightarrow> bool" where
  "str_le a b = (\<not> str_less b a)"

definition digit_val :: "char \<Rightarrow> nat" where
  "digit_val c = of_char c - 48"

definition digits_value :: "string \<Rightarrow> nat" where
  "digits_value ds = foldl (\<lambda>acc c. acc * 10 + digit_val c) 0 ds"

text \<open>
  A JavaScript number that a handler tests before using it: \<^verbatim>\<open>undefined\<close>, \<^verbatim>\<open>NaN\<close>, an
  integer, or an infinity. A number is a double: \<open>to_double\<close> rounds a non-negative
  integer to the nearest double, ties to the even mantissa; \<open>None\<close> is the overflow to
  \<^verbatim>\<open>Infinity\<close>. (Past twenty significant digits ECMAScript leaves the rounding of
  \<^verbatim>\<open>parseInt\<close> to the implementation; the nearest double is what V8 returns.)
\<close>

datatype js_num = Undefined | NaN | Num int | Infinite

function bit_length :: "int \<Rightarrow> nat" where
  "bit_length n = (if n \<le> 0 then 0 else Suc (bit_length (n div 2)))"
  by pat_completeness auto
termination
  by (relation "measure nat") auto

declare bit_length.simps [simp del]

definition to_double :: "int \<Rightarrow> int option" where
  "to_double n =
     (if bit_length n \<le> 53 then Some n
      else let e = bit_length n - 53;
               q = n div 2 ^ e;
               r = n mod 2 ^ e;
               q' = (if 2 * r > 2 ^ e \<or> (2 * r = 2 ^ e \<and> odd q) then q + 1 else q)
           in if q' * 2 ^ e \<ge> 2 ^ 1024 then None else Some (q' * 2 ^ e))"

definition digits_int :: "string \<Rightarrow> int" where
  "digits_int ds = foldl (\<lambda>acc c. acc * 10 + int (digit_val c)) 0 ds"

text \<open>
  \<^verbatim>\<open>parseInt(s, 10)\<close> skips leading white space, reads an optional sign and the
  longest run of decimal digits after it, and is \<^verbatim>\<open>NaN\<close> when that run is empty. A text
  is a list of code units below 256; of the white space of JavaScript these are the
  code units 9 to 13, 32 and 160.
\<close>

definition is_space :: "char \<Rightarrow> bool" where
  "is_space c = ((of_char c :: nat) \<in> {9, 10, 11, 12, 13, 32, 160})"

definition parseInt :: "string \<Rightarrow> js_num" where
  "parseInt s =
     (let t = dropWhile is_space s;
          neg = (case t of [] \<Rightarrow> False | c # r \<Rightarrow> c = CHR ''-'');
          u = (case t of [] \<Rightarrow> [] | c # r \<Rightarrow> if c = CHR ''-'' \<or> c = CHR ''+'' then r else t);
          ds = takeWhile is_digit u
      in if ds = [] then NaN
         else (case to_double (digits_int ds) of
                 None \<Rightarrow> Infinite
               | Some v \<Rightarrow> Num (if neg then - v else v)))"

text \<open>
  \<^verbatim>\<open>String.prototype.split\<close> on a one-character separator, and \<^verbatim>\<open>Number\<close> on a text of
  decimal digits (the empty text is 0). \<open>None\<close> stands for \<^verbatim>\<open>NaN\<close>; the model gives it
  for every other text, which is exact for the texts the handlers apply it to (pieces of
  stored opening and closing times, two digits each).
\<close>

fun split :: "char \<Rightarrow> string \<Rightarrow> string list" where
  "split sep [] = [[]]"
| "split sep (c # cs) =
     (if c = sep then [] # split sep cs
      else (case split sep cs of [] \<Rightarrow> [[c]] | p # ps \<Rightarrow> (c # p) # ps))"


section \<open>Date and SQLite time functions\<close>

text \<open>
  \<^verbatim>\<open>getHours\<close> and \<^verbatim>\<open>getMinutes\<close> read the wall clock of the runtime's time zone.
  The zone is a parameter \<open>tz\<close>: the offset from UTC, in minutes east, in force at an
  instant.
\<close>

definition getHours :: "(int \<Rightarrow> int) \<Rightarrow> int \<Rightarrow> nat" where
  "getHours tz t = nat (((t + tz t * 60000) div 3600000) mod 24)"

definition getMinutes :: "(int \<Rightarrow> int) \<Rightarrow> int \<Rightarrow> nat" where
  "getMinutes tz t = nat (((t + tz t * 60000) div 60000) mod 60)"

text \<open>
  The calendar date of a day number (days since 1970-01-01, proleptic Gregorian), as
  \<^verbatim>\<open>toISOString\<close> and SQLite's \<^verbatim>\<open>date\<close> compute it. \<open>year_of_era\<close> splits a day
  of a 400-year era that starts on 1 March into the year of the era and the day of that
  year; \<open>month_day\<close> splits a day of a year that starts on 1 March into month and day.
\<close>

definition is_leap :: "int \<Rightarrow> bool" where
  "is_leap y = (y mod 4 = 0 \<and> (y mod 100 \<noteq> 0 \<or> y mod 400 = 0))"

definition days_in_month :: "int \<Rightarrow> int \<Rightarrow> int" where
  "days_in_month y m =
     (if m = 2 then (if is_leap y then 29 else 28)
      else if m = 4 \<or> m = 6 \<or> m = 9 \<or> m = 11 then 30 else 31)"

definition year_of_era :: "int \<Rightarrow> int \<times> int" where
  "year_of_era doe =
     (let c = min 3 (doe div 36524);
          doc = doe - c * 36524;
          q = doc div 1461;
          doq = doc mod 1461;
          yq = min 3 (doq div 365)
      in (c * 100 + q * 4 + yq, doq - yq * 365))"

definition month_day :: "int \<Rightarrow> int \<times> int" where
  "month_day doy =
     (let mp = (5 * doy + 2) div 153
      in (if mp < 10 then mp + 3 else mp - 9, doy - (153 * mp + 2) div 5 + 1))"

definition civil_from_days :: "int \<Rightarrow> int \<times> int \<times> int" where
  "civil_from_days z0 =
     (let z = z0 + 719468;
          (yoe, doy) = year_of_era (z mod 146097);
          y = (z div 146097) * 400 + yoe;
          (m, d) = month_day doy
      in (if m \<le> 2 then y + 1 else y, m, d))"

definition pad :: "nat \<Rightarrow> int \<Rightarrow> string" where
  "pad n x = padStart n CHR ''0'' (toString (nat x))"

definition fmt_date :: "int \<times> int \<times> int \<Rightarrow> string" where
  "fmt_date ymd = (case ymd of (y, m, d) \<Rightarrow> pad 4 y @ ''-'' @ pad 2 m @ ''-'' @ pad 2 d)"

definition fmt_hms :: "int \<Rightarrow> string" where
  "fmt_hms ms_of_day =
     pad 2 (ms_of_day div 3600000) @ '':'' @
     pad 2 ((ms_of_day div 60000) mod 60) @ '':'' @
     pad 2 ((ms_of_day div 1000) mod 60)"

text \<open>\<^verbatim>\<open>Date.prototype.toISOString\<close>: \<^verbatim>\<open>YYYY-MM-DDTHH:MM:SS.sssZ\<close>.\<close>

definition toISOString :: "int \<Rightarrow> string" where
  "toISOString t =
     fmt_date (civil_from_days (t div 86400000)) @ ''T'' @ fmt_hms (t mod 86400000) @
     ''.'' @ pad 3 (t mod 1000) @ ''Z''"

text \<open>The text \<^verbatim>\<open>datetime(x)\<close> returns: \<^verbatim>\<open>YYYY-MM-DD HH:MM:SS\<close>.\<close>

definition sqlite_datetime_text :: "int \<Rightarrow> string" where
  "sqlite_datetime_text t =
     fmt_date (civil_from_days (t div 86400000)) @ '' '' @ fmt_hms (t mod 86400000)"

text \<open>
  \<^verbatim>\<open>DATE(x)\<close>: \<^verbatim>\<open>YYYY-MM-DD\<close>, or \<^verbatim>\<open>NULL\<close> outside the years 0000 to 9999 that SQLite
  supports.
\<close>

definition sqlite_date :: "int \<Rightarrow> string option" where
  "sqlite_date t =
     (case civil_from_days (t div 86400000) of (y, m, d) \<Rightarrow>
        if 0 \<le> y \<and> y \<le> 9999 then Some (fmt_date (y, m, d)) else None)"

text \<open>
  The time values of a \<^verbatim>\<open>Date\<close>: on any other number \<^verbatim>\<open>toISOString()\<close> throws a
  \<^verbatim>\<open>RangeError\<close>. The instants of the years 0000 to 9999: \<^verbatim>\<open>toISOString()\<close> writes the
  others with a signed six-digit year, which SQLite does not read.
\<close>

definition valid_time_value :: "int \<Rightarrow> bool" where
  "valid_time_value t = (- 8640000000000000 \<le> t \<and> t \<le> 8640000000000000)"

definition four_digit_year :: "int \<Rightarrow> bool" where
  "four_digit_year t = (- 62167219200000 \<le> t \<and> t \<le> 253402300799999)"

text \<open>
  SQLite's \<^verbatim>\<open>datetime(x)\<close> renders \<^verbatim>\<open>YYYY-MM-DD HH:MM:SS\<close>: the fraction of the second
  is dropped. Two such texts compare as the whole seconds they show, so the model keeps
  the count of whole seconds; \<open>None\<close> is \<^verbatim>\<open>NULL\<close>, the result for a text SQLite does not
  read. \<^verbatim>\<open>datetime(datetime(x), '+' || n || ' minutes')\<close> is \<^verbatim>\<open>NULL\<close> as well when \<open>n\<close>
  is negative (the modifier \<^verbatim>\<open>'+-1 minutes'\<close> is malformed) and when the sum is past the
  last second of the year 9999. A comparison with \<^verbatim>\<open>NULL\<close> is not true.
\<close>

definition sqlite_datetime :: "int \<Rightarrow> int option" where
  "sqlite_datetime t = (if four_digit_year t then Some (t div 1000) else None)"

definition sqlite_datetime_plus_minutes :: "int \<Rightarrow> int \<Rightarrow> int option" where
  "sqlite_datetime_plus_minutes t n =
     (case sqlite_datetime t of
        None \<Rightarrow> None
      | Some s \<Rightarrow> if 0 \<le> n \<and> s + 60 * n \<le> 253402300799 then Some (s + 60 * n) else None)"

definition sql_less :: "int option \<Rightarrow> int option \<Rightarrow> bool" where
  "sql_less a b = (case (a, b) of (Some x, Some y) \<Rightarrow> x < y | _ \<Rightarrow> False)"

definition sql_eq :: "int option \<Rightarrow> int option \<Rightarrow> bool" where
  "sql_eq a b = (case (a, b) of (Some x, Some y) \<Rightarrow> x = y | _ \<Rightarrow> False)"

section \<open>controller/reservationController.js\<close>

subsection \<open>isWithinOperatingHours\<close>

definition hhmm :: "(int \<Rightarrow> int) \<Rightarrow> int \<Rightarrow> string" where
  "hhmm tz t = padStart 2 CHR ''0'' (toString (getHours tz t)) @ '':'' @
               padStart 2 CHR ''0'' (toString (getMinutes tz t))"

definition isWithinOperatingHours :: "(int \<Rightarrow> int) \<Rightarrow> restaurant \<Rightarrow> int \<Rightarrow> int \<Rightarrow> bool" where
  "isWithinOperatingHours tz r startTime endTime =
     (let startTimeStr = hhmm tz startTime;
          endTimeStr = hhmm tz endTime;
          startsAfterOpening = str_ge startTimeStr (opening_time r);
          endsBeforeClosing = str_le endTimeStr (closing_time r)
      in startsAfterOpening \<and> endsBeforeClosing)"

subsection \<open>checkForOverlaps\<close>

text \<open>
  The \<^verbatim>\<open>WHERE\<close> clause of the query, for one row: the row is selected when the clause is
  true. Its three parameters after the table id are bound to \<^verbatim>\<open>endDate\<close>,
  \<^verbatim>\<open>startDate\<close> and \<^verbatim>\<open>startDate\<close>.
\<close>

definition overlap_where :: "int \<Rightarrow> int \<Rightarrow> int \<Rightarrow> reservation \<Rightarrow> bool" where
  "overlap_where tid endDate startDate r =
     (table_id r = tid \<and>
      (status r = Confirmed \<or> status r = Pending) \<and>
      ((sql_less (sqlite_datetime (start_time r)) (sqlite_datetime endDate) \<and>
        sql_less (sqlite_datetime startDate)
                 (sqlite_datetime_plus_minutes (start_time r) (duration_minutes r)))
       \<or> sql_eq (sqlite_datetime (start_time r)) (sqlite_datetime startDate)))"

text \<open>
  Before the query runs, \<^verbatim>\<open>endDate.toISOString()\<close> and \<^verbatim>\<open>startDate.toISOString()\<close>
  throw a \<^verbatim>\<open>RangeError\<close> when the date is no valid time value; the handlers that call
  the check answer 500 then. \<open>checkForOverlaps\<close> is the answer when nothing is thrown.
\<close>

definition checkForOverlaps_throws :: "int \<Rightarrow> int \<Rightarrow> bool" where
  "checkForOverlaps_throws start dur =
     (\<not> valid_time_value start \<or> \<not> valid_time_value (start + dur * 60000))"

definition checkForOverlaps :: "db \<Rightarrow> int \<Rightarrow> int \<Rightarrow> int \<Rightarrow> bool" where
  "checkForOverlaps d tid start dur =
     (let startDate = start;
          endDate = startDate + dur * 60000;
          overlapping = filter (overlap_where tid endDate startDate) (reservations d)
      in length overlapping > 0)"

subsection \<open>createReservation\<close>

text \<open>
  The request body after JSON parsing. \<open>b_start_time\<close> is \<open>None\<close> when the text is not
  an ISO-8601 UTC date-time, which the schema rejects; a text it accepts has a year of
  four digits, so its instant is in the years 0000 to 9999. A body with a field of
  another JSON type is rejected the same way and has no value of this type.
\<close>

record reservation_body =
  b_restaurant_id :: int
  b_table_id :: int
  b_customer_name :: string
  b_phone :: string
  b_party_size :: int
  b_start_time :: "int option"
  b_duration_minutes :: int

definition createReservationSchema :: "reservation_body \<Rightarrow> bool" where
  "createReservationSchema b =
     (b_restaurant_id b > 0 \<and>
      b_table_id b > 0 \<and>
      length (b_customer_name b) \<ge> 1 \<and>
      (length (b_phone b) \<ge> 10 \<and> list_all is_digit (b_phone b)) \<and>
      b_party_size b > 0 \<and>
      (case b_start_time b of None \<Rightarrow> False | Some t \<Rightarrow> four_digit_year t) \<and>
      (b_duration_minutes b > 0 \<and> b_duration_minutes b \<ge> 15))"

text \<open>
  The \<^verbatim>\<open>INSERT\<close>: the row takes the next id, the status \<^verbatim>\<open>'confirmed'\<close> and, from the
  column default \<^verbatim>\<open>datetime('now')\<close>, SQLite's clock \<open>now_db\<close>. The result is
  \<^verbatim>\<open>lastID\<close> and the new store.
\<close>

definition insert_reservation :: "int \<Rightarrow> reservation_body \<Rightarrow> int \<Rightarrow> db \<Rightarrow> int \<times> db" where
  "insert_reservation now_db b start d =
     (let new_id = seq_reservations d + 1;
          row = \<lparr>res_id = new_id,
                 restaurant_id = b_restaurant_id b,
                 table_id = b_table_id b,
                 customer_name = b_customer_name b,
                 phone = b_phone b,
                 party_size = b_party_size b,
                 start_time = start,
                 duration_minutes = b_duration_minutes b,
                 status = Confirmed,
                 created_at = sqlite_datetime_text now_db\<rparr>
      in (new_id, d\<lparr>reservations := reservations d @ [row], seq_reservations := new_id\<rparr>))"

text \<open>
  The handler. \<open>tz\<close> is the runtime's time zone, \<open>now_js\<close> the runtime's clock when the
  response is built (\<^verbatim>\<open>new Date().toISOString()\<close>). The result is the response and the
  store after the request. Computing \<^verbatim>\<open>endTime\<close> calls \<^verbatim>\<open>toISOString()\<close> on the end
  date, which throws a \<^verbatim>\<open>RangeError\<close> when the end is no valid time value; the
  \<^verbatim>\<open>catch\<close> answers 500.
\<close>

definition createReservation ::
  "(int \<Rightarrow> int) \<Rightarrow> int \<Rightarrow> int \<Rightarrow> db \<Rightarrow> reservation_body \<Rightarrow> (error + reservation) \<times> db" where
  "createReservation tz now_db now_js d b =
     (case (if createReservationSchema b then b_start_time b else None) of
        None \<Rightarrow> (Inl ZodError, d)
      | Some start \<Rightarrow>
     (case find (\<lambda>r. r_id r = b_restaurant_id b) (restaurants d) of
        None \<Rightarrow> (Inl RestaurantNotFound, d)
      | Some restaurant \<Rightarrow>
     (case find (\<lambda>t. t_id t = b_table_id b \<and> t_restaurant_id t = b_restaurant_id b) (tables d) of
        None \<Rightarrow> (Inl TableNotFound, d)
      | Some tbl \<Rightarrow>
     if b_party_size b > capacity tbl
     then (Inl (CapacityExceeded (capacity tbl) (b_party_size b)), d)
     else let endTime = start + b_duration_minutes b * 60000 in
     if \<not> valid_time_value endTime
     then (Inl InternalError, d)
     else if \<not> isWithinOperatingHours tz restaurant start endTime
     then (Inl (OutOfHours (opening_time restaurant) (closing_time restaurant)), d)
     else if checkForOverlaps_throws start (b_duration_minutes b)
     then (Inl InternalError, d)
     else if checkForOverlaps d (b_table_id b) start (b_duration_minutes b)
     then (Inl Conflict, d)
     else (case insert_reservation now_db b start d of (new_id, d') \<Rightarrow>
       (Inr \<lparr>res_id = new_id,
             restaurant_id = b_restaurant_id b,
             table_id = b_table_id b,
             customer_name = b_customer_name b,
             phone = b_phone b,
             party_size = b_party_size b,
             start_time = start,
             duration_minutes = b_duration_minutes b,
             status = Confirmed,
             created_at = toISOString now_js\<rparr>, d')))))"

subsection \<open>cancelReservation\<close>

text \<open>The \<^verbatim>\<open>UPDATE\<close> touches every row with the id; the response echoes the id.\<close>

definition cancelReservation :: "db \<Rightarrow> int \<Rightarrow> (error + int) \<times> db" where
  "cancelReservation d i =
     (case find (\<lambda>r. res_id r = i) (reservations d) of
        None \<Rightarrow> (Inl ReservationNotFound, d)
      | Some reservation \<Rightarrow>
          (Inr i, d\<lparr>reservations :=
             map (\<lambda>r. if res_id r = i then r\<lparr>status := Cancelled\<rparr> else r) (reservations d)\<rparr>))"

subsection \<open>getReservationsByDate\<close>

text \<open>The test \<^verbatim>\<open>/^\d{4}-\d{2}-\d{2}$/\<close>.\<close>

definition date_regex :: "string \<Rightarrow> bool" where
  "date_regex s =
     (case s of
        [y1, y2, y3, y4, h1, m1, m2, h2, d1, d2] \<Rightarrow>
          is_digit y1 \<and> is_digit y2 \<and> is_digit y3 \<and> is_digit y4 \<and> h1 = CHR ''-'' \<and>
          is_digit m1 \<and> is_digit m2 \<and> h2 = CHR ''-'' \<and> is_digit d1 \<and> is_digit d2
      | _ \<Rightarrow> False)"

text \<open>
  A row of the answer is a reservation with the number and the capacity of its table.
  \<^verbatim>\<open>ORDER BY start_time\<close> orders the rows by the stored text of the start. The model
  holds the instant of a start, not its text, and orders by the instant: that is the
  order of the texts as long as all of them carry the same number of fractional digits
  (as the texts of \<^verbatim>\<open>toISOString()\<close> do), and may differ from it between two texts of one
  second otherwise. The properties proved of this handler do not depend on the order.
\<close>

definition getReservationsByDate :: "db \<Rightarrow> int \<Rightarrow> string \<Rightarrow> error + (reservation \<times> int \<times> int) list" where
  "getReservationsByDate d rid date =
     (if \<not> date_regex date then Inl BadDateFormat
      else case find (\<lambda>r. r_id r = rid) (restaurants d) of
        None \<Rightarrow> Inl RestaurantNotFound
      | Some restaurant \<Rightarrow>
          Inr (sort_key (\<lambda>row. start_time (fst row))
                (concat (map (\<lambda>r. map (\<lambda>t. (r, table_number t, capacity t))
                                    (filter (\<lambda>t. table_id r = t_id t) (tables d)))
                   (filter (\<lambda>r. restaurant_id r = rid \<and> sqlite_date (start_time r) = Some date)
                      (reservations d))))))"

subsection \<open>getAvailableSlots\<close>









section \<open>controller/restaurantController.js\<close>

subsection \<open>createRestaurant\<close>

text \<open>The test \<^verbatim>\<open>/^\d{2}:\d{2}$/\<close> of the two time fields.\<close>

definition hhmm_regex :: "string \<Rightarrow> bool" where
  "hhmm_regex s =
     (case s of
        [h1, h2, c, m1, m2] \<Rightarrow>
          is_digit h1 \<and> is_digit h2 \<and> c = CHR '':'' \<and> is_digit m1 \<and> is_digit m2
      | _ \<Rightarrow> False)"

record restaurant_body =
  rb_name :: string
  rb_opening_time :: string
  rb_closing_time :: string

definition createRestaurantSchema :: "restaurant_body \<Rightarrow> bool" where
  "createRestaurantSchema b =
     (length (rb_name b) \<ge> 1 \<and> hhmm_regex (rb_opening_time b) \<and> hhmm_regex (rb_closing_time b))"

text \<open>
  As in \<open>createReservation\<close>, the row gets \<^verbatim>\<open>datetime('now')\<close> from SQLite's clock
  \<open>now_db\<close> and the response a fresh \<^verbatim>\<open>toISOString()\<close> of the runtime's clock \<open>now_js\<close>.
\<close>

definition createRestaurant ::
  "int \<Rightarrow> int \<Rightarrow> db \<Rightarrow> restaurant_body \<Rightarrow> (error + restaurant) \<times> db" where
  "createRestaurant now_db now_js d b =
     (if \<not> createRestaurantSchema b then (Inl ZodError, d)
      else let new_id = seq_restaurants d + 1;
               row = \<lparr>r_id = new_id, name = rb_name b, opening_time = rb_opening_time b,
                      closing_time = rb_closing_time b,
                      r_created_at = sqlite_datetime_text now_db\<rparr>
           in (Inr \<lparr>r_id = new_id, name = rb_name b, opening_time = rb_opening_time b,
                     closing_time = rb_closing_time b, r_created_at = toISOString now_js\<rparr>,
               d\<lparr>restaurants := restaurants d @ [row], seq_restaurants := new_id\<rparr>))"

subsection \<open>addTable\<close>

text \<open>
  The JSON body: a field is \<open>None\<close> when it is absent or is not an integer number, which
  the schema rejects alike. \<open>param\<close> is \<^verbatim>\<open>req.params.restaurant_id\<close>, \<open>None\<close> when absent.
\<close>

record table_body =
  tb_restaurant_id :: "int option"
  tb_table_number :: "int option"
  tb_capacity :: "int option"

definition addTableSchema :: "table_body \<Rightarrow> (int \<times> int \<times> int) option" where
  "addTableSchema b =
     (case (tb_restaurant_id b, tb_table_number b, tb_capacity b) of
        (Some r, Some n, Some c) \<Rightarrow> if r > 0 \<and> n > 0 \<and> c > 0 then Some (r, n, c) else None
      | _ \<Rightarrow> None)"

definition addTable :: "db \<Rightarrow> string option \<Rightarrow> table_body \<Rightarrow> (error + table) \<times> db" where
  "addTable d param body =
     (let paramRestaurantId =
            (case param of None \<Rightarrow> Undefined
             | Some s \<Rightarrow> if s \<noteq> [] then parseInt s else Undefined)
      in if paramRestaurantId \<noteq> Undefined \<and> paramRestaurantId = NaN then (Inl InvalidUrlId, d)
         else
      let dataToValidate =
            (case paramRestaurantId of
               Num n \<Rightarrow> if n \<noteq> 0 then body\<lparr>tb_restaurant_id := Some n\<rparr> else body
             | Infinite \<Rightarrow> body\<lparr>tb_restaurant_id := None\<rparr>
             | _ \<Rightarrow> body)
      in case addTableSchema dataToValidate of
           None \<Rightarrow> (Inl ZodError, d)
         | Some (rid, num, cap) \<Rightarrow>
      (case find (\<lambda>r. r_id r = rid) (restaurants d) of
         None \<Rightarrow> (Inl RestaurantNotFound, d)
       | Some restaurant \<Rightarrow>
      (case find (\<lambda>t. t_restaurant_id t = rid \<and> table_number t = num) (tables d) of
         Some existing \<Rightarrow> (Inl (DuplicateTable num), d)
       | None \<Rightarrow>
           let new_id = seq_tables d + 1;
               row = \<lparr>t_id = new_id, t_restaurant_id = rid, table_number = num, capacity = cap\<rparr>
           in (Inr row, d\<lparr>tables := tables d @ [row], seq_tables := new_id\<rparr>))))"

section \<open>The states the API reaches\<close>

text \<open>
  The store starts empty and changes only through the four writing handlers, one request
  after the other, in any time zone and at any clock readings.
\<close>

inductive reachable :: "db \<Rightarrow> bool" where
  reachable_empty: "reachable empty_db"
| reachable_createRestaurant:
    "reachable d \<Longrightarrow> reachable (snd (createRestaurant now_db now_js d b))"
| reachable_addTable:
    "reachable d \<Longrightarrow> reachable (snd (addTable d param body))"
| reachable_createReservation:
    "reachable d \<Longrightarrow> reachable (snd (createReservation tz now_db now_js d body))"
| reachable_cancelReservation:
    "reachable d \<Longrightarrow> reachable (snd (cancelReservation d i))"

section \<open>The specification's reading of the reservation rules\<close>

text \<open>
  The definitions of this section follow the words of the specification, not the code:
  they are what the code is compared with. A reservation is active when its status is
  \<^verbatim>\<open>confirmed\<close> or \<^verbatim>\<open>pending\<close>; its interval is half-open, from its start to its start
  plus its duration.
\<close>

definition active :: "reservation \<Rightarrow> bool" where
  "active r = (status r = Confirmed \<or> status r = Pending)"

definition spec_hasOverlap :: "db \<Rightarrow> int \<Rightarrow> int \<Rightarrow> int \<Rightarrow> bool" where
  "spec_hasOverlap d tid start dur =
     list_ex (\<lambda>e. table_id e = tid \<and> active e \<and>
        ((start_time e < start + dur * 60000 \<and>
          start_time e + duration_minutes e * 60000 > start)
         \<or> start_time e = start)) (reservations d)"

definition intervals_intersect :: "reservation \<Rightarrow> reservation \<Rightarrow> bool" where
  "intervals_intersect a b =
     (start_time a < start_time b + duration_minutes b * 60000 \<and>
      start_time b < start_time a + duration_minutes a * 60000)"

definition double_booked :: "reservation \<Rightarrow> reservation \<Rightarrow> bool" where
  "double_booked a b =
     (active a \<and> active b \<and> table_id a = table_id b \<and> intervals_intersect a b)"

fun no_double_booking :: "reservation list \<Rightarrow> bool" where
  "no_double_booking [] = True"
| "no_double_booking (r # rs) = (\<not> list_ex (double_booked r) rs \<and> no_double_booking rs)"

text \<open>
  The row that a valid body gives, with a given id and \<^verbatim>\<open>created_at\<close> text: the stored
  row and the response of \<open>createReservation\<close> are both of this form.
\<close>

definition reservation_row :: "int \<Rightarrow> string \<Rightarrow> reservation_body \<Rightarrow> int \<Rightarrow> reservation" where
  "reservation_row new_id stamp b start =
     \<lparr>res_id = new_id,
      restaurant_id = b_restaurant_id b,
      table_id = b_table_id b,
      customer_name = b_customer_name b,
      phone = b_phone b,
      party_size = b_party_size b,
      start_time = start,
      duration_minutes = b_duration_minutes b,
      status = Confirmed,
      created_at = stamp\<rparr>"

text \<open>The rows after \<^verbatim>\<open>UPDATE reservations SET status = 'cancelled' WHERE id = i\<close>.\<close>

definition cancel_rows :: "int \<Rightarrow> reservation list \<Rightarrow> reservation list" where
  "cancel_rows i rs = map (\<lambda>r. if res_id r = i then r\<lparr>status := Cancelled\<rparr> else r) rs"

text \<open>
  A well-formed 24-hour wall-clock time in the specification's sense: \<^verbatim>\<open>HH:MM\<close> with the
  hour from 00 to 23 and the minute from 00 to 59. \<open>times_match\<close> is what the creation
  schema checks of a restaurant's two times.
\<close>

definition spec_wall_clock :: "string \<Rightarrow> bool" where
  "spec_wall_clock s =
     (hhmm_regex s \<and> digits_value (take 2 s) \<le> 23 \<and> digits_value (drop 3 s) \<le> 59)"

definition times_match :: "restaurant \<Rightarrow> bool" where
  "times_match r = (hhmm_regex (opening_time r) \<and> hhmm_regex (closing_time r))"

text \<open>
  A date text that names a day of the calendar: of the shape \<^verbatim>\<open>YYYY-MM-DD\<close>, with a
  month from 1 to 12 and a day that the month has in that year.
\<close>

definition is_calendar_date :: "string \<Rightarrow> bool" where
  "is_calendar_date s =
     (date_regex s \<and>
      (let y = int (digits_value (take 4 s));
           m = int (digits_value (take 2 (drop 5 s)));
           d = int (digits_value (drop 8 s))
       in 1 \<le> m \<and> m \<le> 12 \<and> 1 \<le> d \<and> d \<le> days_in_month y m))"






text \<open>
  What the overlap query can tell apart: among reservations that start and end within
  the years 0000 to 9999, two active ones of one table clash when their intervals
  intersect after every start is cut to its whole second.
\<close>

definition within_years :: "reservation \<Rightarrow> bool" where
  "within_years r =
     (four_digit_year (start_time r) \<and> 0 \<le> duration_minutes r \<and>
      start_time r div 1000 + 60 * duration_minutes r \<le> 253402300799)"

definition seconds_clash :: "reservation \<Rightarrow> reservation \<Rightarrow> bool" where
  "seconds_clash a b =
     (active a \<and> active b \<and> table_id a = table_id b \<and>
      within_years a \<and> within_years b \<and>
      start_time a div 1000 < start_time b div 1000 + 60 * duration_minutes b \<and>
      start_time b div 1000 < start_time a div 1000 + 60 * duration_minutes a)"

fun no_seconds_clash :: "reservation list \<Rightarrow> bool" where
  "no_seconds_clash [] = True"
| "no_seconds_clash (r # rs) = (\<not> list_ex (seconds_clash r) rs \<and> no_seconds_clash rs)"

section \<open>Example data\<close>

text \<open>
  The restaurant and table of \<^verbatim>\<open>__tests__/api.test.js\<close>, a runtime on UTC, and two
  requests for table 1: 2026-01-10T12:00:00.500Z and 2026-01-10T12:15:00.200Z, fifteen
  minutes each. \<open>db2\<close> is the store once the first of them is booked.
\<close>

definition utc :: "int \<Rightarrow> int" where
  "utc t = 0"

definition grill_house :: restaurant where
  "grill_house = \<lparr>r_id = 1, name = ''The Grill House'', opening_time = ''10:00'',
     closing_time = ''22:00'', r_created_at = ''2026-01-01 09:00:00''\<rparr>"

definition table_one :: table where
  "table_one = \<lparr>t_id = 1, t_restaurant_id = 1, table_number = 1, capacity = 4\<rparr>"

definition db1 :: db where
  "db1 = empty_db\<lparr>restaurants := [grill_house], tables := [table_one],
     seq_restaurants := 1, seq_tables := 1\<rparr>"

definition body_a :: reservation_body where
  "body_a = \<lparr>b_restaurant_id = 1, b_table_id = 1, b_customer_name = ''John Doe'',
     b_phone = ''1234567890'', b_party_size = 2, b_start_time = Some 1768046400500,
     b_duration_minutes = 15\<rparr>"

definition body_b :: reservation_body where
  "body_b = body_a\<lparr>b_customer_name := ''Jane Doe'', b_start_time := Some 1768047300200\<rparr>"

definition row_a :: reservation where
  "row_a = \<lparr>res_id = 1, restaurant_id = 1, table_id = 1, customer_name = ''John Doe'',
     phone = ''1234567890'', party_size = 2, start_time = 1768046400500,
     duration_minutes = 15, status = Confirmed, created_at = ''2026-01-09 20:20:00''\<rparr>"

definition db2 :: db where
  "db2 = db1\<lparr>reservations := [row_a], seq_reservations := 1\<rparr>"

text \<open>
  The second booking as stored, the store after it, and the first request moved to
  09:00, before the restaurant opens.
\<close>

definition row_b :: reservation where
  "row_b = \<lparr>res_id = 2, restaurant_id = 1, table_id = 1, customer_name = ''Jane Doe'',
     phone = ''1234567890'', party_size = 2, start_time = 1768047300200,
     duration_minutes = 15, status = Confirmed, created_at = ''2026-01-09 20:35:00''\<rparr>"

definition db3 :: db where
  "db3 = db2\<lparr>reservations := [row_a, row_b], seq_reservations := 2\<rparr>"



text \<open>Bodies for \<open>createRestaurant\<close> and \<open>addTable\<close>.\<close>

definition late_body :: restaurant_body where
  "late_body = \<lparr>rb_name = ''Night Owl'', rb_opening_time = ''99:99'', rb_closing_time = ''25:61''\<rparr>"

definition grill_body :: restaurant_body where
  "grill_body = \<lparr>rb_name = ''The Grill House'', rb_opening_time = ''10:00'', rb_closing_time = ''22:00''\<rparr>"


text \<open>A store with one reservation, on 2026-01-10 at 12:00:00.000Z.\<close>

definition row_c :: reservation where
  "row_c = row_a\<lparr>start_time := 1768046400000\<rparr>"

definition db4 :: db where
  "db4 = db1\<lparr>reservations := [row_c], seq_reservations := 1\<rparr>"












section \<open>Properties\<close>

subsection \<open>The overlap query\<close>

lemma sqlite_datetime_Some:
  "four_digit_year t \<Longrightarrow> sqlite_datetime t = Some (t div 1000)"
  by (simp add: sqlite_datetime_def)

lemma sqlite_datetime_plus_minutes_eq:
  assumes "within_years r"
  shows "sqlite_datetime_plus_minutes (start_time r) (duration_minutes r) =
      Some (start_time r div 1000 + 60 * duration_minutes r)"
  using assms by (simp add: sqlite_datetime_plus_minutes_def sqlite_datetime_def within_years_def)

lemma checkForOverlaps_list_ex:
  "checkForOverlaps d tid start dur =
     list_ex (overlap_where tid (start + dur * 60000) start) (reservations d)"
  by (simp add: checkForOverlaps_def Let_def list_ex_iff filter_empty_conv)

text \<open>
  On instants that are whole seconds, as long as the request and the stored rows start
  and end within the years 0000 to 9999, the query is the specification's test, row by
  row and for the whole store.
\<close>

lemma overlap_where_whole_seconds:
  assumes "start_time e mod 1000 = 0" and "start mod 1000 = 0"
    and "within_years e" and "four_digit_year start" and "four_digit_year (start + dur * 60000)"
  shows "overlap_where tid (start + dur * 60000) start e =
      (table_id e = tid \<and> active e \<and>
        ((start_time e < start + dur * 60000 \<and>
          start_time e + duration_minutes e * 60000 > start)
         \<or> start_time e = start))"
proof -
  from assms(1) obtain a where a: "start_time e = 1000 * a" by auto
  from assms(2) obtain b where b: "start = 1000 * b" by auto
  have y: "four_digit_year (start_time e)" using assms(3) by (simp add: within_years_def)
  have c: "sqlite_datetime (start + dur * 60000) = Some (b + dur * 60)"
    using sqlite_datetime_Some[OF assms(5)] by (simp add: b)
  have d: "sqlite_datetime (start_time e) = Some a" "sqlite_datetime start = Some b"
    using sqlite_datetime_Some[OF y] sqlite_datetime_Some[OF assms(4)] by (simp_all add: a b)
  have p: "sqlite_datetime_plus_minutes (start_time e) (duration_minutes e) =
      Some (a + 60 * duration_minutes e)"
    using sqlite_datetime_plus_minutes_eq[OF assms(3)] by (simp add: a)
  have e: "(start_time e < start + dur * 60000) = (a < b + dur * 60)"
      "(start_time e + duration_minutes e * 60000 > start) = (a + 60 * duration_minutes e > b)"
      "(start_time e = start) = (a = b)"
    unfolding a b by linarith+
  show ?thesis
    unfolding overlap_where_def active_def c d p e
    by (simp add: sql_less_def sql_eq_def)
qed

lemma checkForOverlaps_whole_seconds:
  assumes "\<forall>e \<in> set (reservations d). start_time e mod 1000 = 0 \<and> within_years e"
    and "start mod 1000 = 0"
    and "four_digit_year start" and "four_digit_year (start + dur * 60000)"
  shows "checkForOverlaps d tid start dur = spec_hasOverlap d tid start dur"
  unfolding checkForOverlaps_list_ex spec_hasOverlap_def list_ex_iff
proof (rule bex_cong [OF refl])
  fix e assume "e \<in> set (reservations d)"
  with assms(1) have "start_time e mod 1000 = 0" "within_years e" by simp_all
  then show "overlap_where tid (start + dur * 60000) start e =
      (table_id e = tid \<and> active e \<and>
        ((start_time e < start + dur * 60000 \<and>
          start_time e + duration_minutes e * 60000 > start)
         \<or> start_time e = start))"
    using assms(2,3,4) by (simp only: overlap_where_whole_seconds)
qed

text \<open>
  Claim C2. The overlap checker answers true exactly when some confirmed or pending
  reservation of the table starts before the requested end and ends after the requested
  start, or starts at the requested start. The query compares \<^verbatim>\<open>datetime(...)\<close> texts,
  which carry no fraction of a second, so this fails between instants that are not whole
  seconds: with table 1 booked from 12:00:00.500 for fifteen minutes (until 12:15:00.500),
  a request for 12:15:00.200 is answered false although the two intervals share 300
  milliseconds.
\<close>

theorem checkForOverlaps_subsecond:
  "checkForOverlaps db2 1 1768047300200 15 = False \<and>
   spec_hasOverlap db2 1 1768047300200 15 = True"
  by code_simp

subsection \<open>Evaluating the examples\<close>

lemma find_None_list_ex: "(find P xs = None) = (\<not> list_ex P xs)"
  by (auto simp: find_None_iff list_ex_iff)

lemma booking_a:
  "createReservation utc 1767990000000 1767990000123 db1 body_a =
     (Inr (row_a\<lparr>created_at := ''2026-01-09T20:20:00.123Z''\<rparr>), db2)"
  by code_simp

lemma booking_b:
  "createReservation utc 1767990900000 1767990900456 db2 body_b =
     (Inr (row_b\<lparr>created_at := ''2026-01-09T20:35:00.456Z''\<rparr>), db3)"
  by code_simp

lemma rows_a_b:
  "active row_a" "active row_b" "table_id row_a = table_id row_b"
  "intervals_intersect row_a row_b" "double_booked row_a row_b"
  by code_simp+




subsection \<open>No double booking\<close>

text \<open>
  Claim C1. No two active reservations of one table have intersecting intervals in any
  state the operations reach; a request whose interval intersects an active reservation
  of its table is refused with 409. The two example requests, made one after the other
  on the store with no reservation, are both answered 201 and both rows are stored as
  confirmed on table 1, although 12:00:00.500 to 12:15:00.500 and 12:15:00.200 to
  12:30:00.200 intersect.
\<close>

theorem createReservation_double_booking:
  "createReservation utc 1767990000000 1767990000123 db1 body_a =
     (Inr (row_a\<lparr>created_at := ''2026-01-09T20:20:00.123Z''\<rparr>), db2) \<and>
   createReservation utc 1767990900000 1767990900456 db2 body_b =
     (Inr (row_b\<lparr>created_at := ''2026-01-09T20:35:00.456Z''\<rparr>), db3) \<and>
   reservations db3 = [row_a, row_b] \<and>
   active row_a \<and> active row_b \<and> table_id row_a = table_id row_b \<and>
   intervals_intersect row_a row_b \<and>
   no_double_booking (reservations db3) = False"
  by (simp add: booking_a booking_b rows_a_b db3_def)

subsection \<open>cancelReservation\<close>

lemma cancel_found:
  assumes "list_ex (\<lambda>r. res_id r = i) (reservations d)"
  shows "cancelReservation d i = (Inr i, d\<lparr>reservations :=
             map (\<lambda>r. if res_id r = i then r\<lparr>status := Cancelled\<rparr> else r) (reservations d)\<rparr>)"
proof -
  from assms obtain r where "find (\<lambda>r. res_id r = i) (reservations d) = Some r"
    using find_None_list_ex by fastforce
  then show ?thesis by (simp add: cancelReservation_def)
qed

lemma cancel_missing:
  assumes "\<not> list_ex (\<lambda>r. res_id r = i) (reservations d)"
  shows "cancelReservation d i = (Inl ReservationNotFound, d)"
  using assms by (simp add: cancelReservation_def find_None_list_ex[symmetric])

lemma cancel_rows_ids: "map res_id (cancel_rows i rs) = map res_id rs"
  by (induction rs) (simp_all add: cancel_rows_def)

lemma cancel_rows_idem: "cancel_rows i (cancel_rows i rs) = cancel_rows i rs"
  by (induction rs) (simp_all add: cancel_rows_def)

lemma cancel_rows_others:
  "filter (\<lambda>r. res_id r \<noteq> i) (cancel_rows i rs) = filter (\<lambda>r. res_id r \<noteq> i) rs"
  by (induction rs) (simp_all add: cancel_rows_def)

lemma cancel_rows_status:
  "\<forall>r \<in> set (cancel_rows i rs). res_id r = i \<longrightarrow> status r = Cancelled"
proof (intro ballI impI)
  fix r assume r: "r \<in> set (cancel_rows i rs)" "res_id r = i"
  then obtain x where x: "x \<in> set rs" "r = (if res_id x = i then x\<lparr>status := Cancelled\<rparr> else x)"
    unfolding cancel_rows_def set_map by blast
  show "status r = Cancelled"
  proof (cases "res_id x = i")
    case True
    then show ?thesis using x(2) by simp
  next
    case False
    then show ?thesis using x(2) r(2) by simp
  qed
qed

lemma cancel_rows_no_match:
  "filter (\<lambda>r. res_id r = i) (filter (overlap_where tid e s) (cancel_rows i rs)) = []"
  by (induction rs) (simp_all add: cancel_rows_def overlap_where_def)

lemma cancel_rows_overlap_others:
  assumes "\<not> list_ex (\<lambda>r. res_id r \<noteq> i \<and> overlap_where tid e s r) rs"
  shows "\<not> list_ex (overlap_where tid e s) (cancel_rows i rs)"
proof
  assume "list_ex (overlap_where tid e s) (cancel_rows i rs)"
  then obtain x where x: "x \<in> set rs"
      "overlap_where tid e s (if res_id x = i then x\<lparr>status := Cancelled\<rparr> else x)"
    unfolding cancel_rows_def list_ex_iff set_map by blast
  have "res_id x \<noteq> i"
  proof
    assume "res_id x = i"
    with x(2) show False by (simp add: overlap_where_def)
  qed
  then have "res_id x \<noteq> i \<and> overlap_where tid e s x" using x(2) by simp
  with x(1) assms show False unfolding list_ex_iff by blast
qed

text \<open>
  Claim C7. Cancelling answers 404 exactly when no reservation has the id, and then the
  store is unchanged. Otherwise, whatever the status was, the rows with that id get the
  status \<^verbatim>\<open>cancelled\<close> and nothing else changes: no row is deleted and the other rows
  are as before. A second cancel succeeds and leaves the store as it is. Afterwards the
  cancelled reservation matches no overlap query, so an overlap check against it alone
  reports no conflict for any range, its own included; and a range that no other row
  occupied before the cancel is reported free by the check on the whole store.
\<close>

theorem cancelReservation_semantics:
  "((fst (cancelReservation d i) = Inl ReservationNotFound)
      = (\<not> list_ex (\<lambda>r. res_id r = i) (reservations d))) \<and>
   (\<not> list_ex (\<lambda>r. res_id r = i) (reservations d) \<longrightarrow> snd (cancelReservation d i) = d) \<and>
   (list_ex (\<lambda>r. res_id r = i) (reservations d) \<longrightarrow>
      (let d' = snd (cancelReservation d i) in
        fst (cancelReservation d i) = Inr i \<and>
        d' = d\<lparr>reservations := reservations d'\<rparr> \<and>
        reservations d' =
          map (\<lambda>r. if res_id r = i then r\<lparr>status := Cancelled\<rparr> else r) (reservations d) \<and>
        map res_id (reservations d') = map res_id (reservations d) \<and>
        (\<forall>r \<in> set (reservations d'). res_id r = i \<longrightarrow> status r = Cancelled) \<and>
        filter (\<lambda>r. res_id r \<noteq> i) (reservations d') = filter (\<lambda>r. res_id r \<noteq> i) (reservations d) \<and>
        cancelReservation d' i = (Inr i, d') \<and>
        (\<forall>tid start dur.
           \<not> checkForOverlaps (d'\<lparr>reservations := filter (\<lambda>r. res_id r = i) (reservations d')\<rparr>)
                tid start dur \<and>
           (\<not> list_ex (\<lambda>r. res_id r \<noteq> i \<and> overlap_where tid (start + dur * 60000) start r)
                (reservations d)
            \<longrightarrow> \<not> checkForOverlaps d' tid start dur))))"
proof (intro conjI impI)
  show "(fst (cancelReservation d i) = Inl ReservationNotFound)
      = (\<not> list_ex (\<lambda>r. res_id r = i) (reservations d))"
    by (cases "list_ex (\<lambda>r. res_id r = i) (reservations d)")
       (simp_all add: cancel_found cancel_missing)
next
  assume "\<not> list_ex (\<lambda>r. res_id r = i) (reservations d)"
  then show "snd (cancelReservation d i) = d" by (simp add: cancel_missing)
next
  assume ex: "list_ex (\<lambda>r. res_id r = i) (reservations d)"
  define d' where "d' = d\<lparr>reservations := cancel_rows i (reservations d)\<rparr>"
  have c: "cancelReservation d i = (Inr i, d')"
    using cancel_found[OF ex] by (simp add: d'_def cancel_rows_def)
  have rows: "reservations d' = cancel_rows i (reservations d)" by (simp add: d'_def)
  have ex': "list_ex (\<lambda>r. res_id r = i) (reservations d')"
    using ex cancel_rows_ids[of i "reservations d"] unfolding rows list_ex_iff
    by (metis (mono_tags, lifting) image_iff set_map)
  have idem: "cancelReservation d' i = (Inr i, d')"
    using cancel_found[OF ex'] 
    by (simp add: rows cancel_rows_def[symmetric] cancel_rows_idem)
  have own: "\<not> checkForOverlaps (d'\<lparr>reservations := filter (\<lambda>r. res_id r = i) (reservations d')\<rparr>)
                tid start dur" for tid start dur
    using cancel_rows_no_match[of i tid "start + dur * 60000" start "reservations d"]
    by (simp add: checkForOverlaps_def Let_def rows filter_filter conj_commute)
  have others: "\<not> checkForOverlaps d' tid start dur"
    if "\<not> list_ex (\<lambda>r. res_id r \<noteq> i \<and> overlap_where tid (start + dur * 60000) start r)
                (reservations d)" for tid start dur
    using cancel_rows_overlap_others[OF that] by (simp add: checkForOverlaps_list_ex rows)
  have s: "snd (cancelReservation d i) = d'" by (simp add: c)
  have p1: "fst (cancelReservation d i) = Inr i" by (simp add: c)
  have p2: "d' = d\<lparr>reservations := reservations d'\<rparr>" by (simp add: d'_def)
  have p3: "reservations d' =
      map (\<lambda>r. if res_id r = i then r\<lparr>status := Cancelled\<rparr> else r) (reservations d)"
    by (simp add: rows cancel_rows_def)
  have p4: "map res_id (reservations d') = map res_id (reservations d)"
    unfolding rows by (rule cancel_rows_ids)
  have p5: "\<forall>r \<in> set (reservations d'). res_id r = i \<longrightarrow> status r = Cancelled"
    unfolding rows by (rule cancel_rows_status)
  have p6: "filter (\<lambda>r. res_id r \<noteq> i) (reservations d') = filter (\<lambda>r. res_id r \<noteq> i) (reservations d)"
    unfolding rows by (rule cancel_rows_others)
  show "let d' = snd (cancelReservation d i) in
        fst (cancelReservation d i) = Inr i \<and>
        d' = d\<lparr>reservations := reservations d'\<rparr> \<and>
        reservations d' =
          map (\<lambda>r. if res_id r = i then r\<lparr>status := Cancelled\<rparr> else r) (reservations d) \<and>
        map res_id (reservations d') = map res_id (reservations d) \<and>
        (\<forall>r \<in> set (reservations d'). res_id r = i \<longrightarrow> status r = Cancelled) \<and>
        filter (\<lambda>r. res_id r \<noteq> i) (reservations d') = filter (\<lambda>r. res_id r \<noteq> i) (reservations d) \<and>
        cancelReservation d' i = (Inr i, d') \<and>
        (\<forall>tid start dur.
           \<not> checkForOverlaps (d'\<lparr>reservations := filter (\<lambda>r. res_id r = i) (reservations d')\<rparr>)
                tid start dur \<and>
           (\<not> list_ex (\<lambda>r. res_id r \<noteq> i \<and> overlap_where tid (start + dur * 60000) start r)
                (reservations d)
            \<longrightarrow> \<not> checkForOverlaps d' tid start dur))"
    unfolding Let_def s
  proof (intro conjI allI impI)
    fix tid start dur
    assume "\<not> list_ex (\<lambda>r. res_id r \<noteq> i \<and> overlap_where tid (start + dur * 60000) start r)
                (reservations d)"
    then show "\<not> checkForOverlaps d' tid start dur" by (rule others)
  qed (fact p1 p2 p3 p4 p5 p6 idem own)+
qed

lemma db2_rows: "reservations db2 = [row_a]"
  by (simp add: db2_def)

theorem cancelReservation_semantics_witness:
  "list_ex (\<lambda>r. res_id r = 1) (reservations db2) \<and>
   \<not> list_ex (\<lambda>r. res_id r = 7) (reservations db2) \<and>
   \<not> list_ex (\<lambda>r. res_id r \<noteq> 1 \<and> overlap_where 1 (1768046400500 + 15 * 60000) 1768046400500 r)
        (reservations db2) \<and>
   cancelReservation db2 7 = (Inl ReservationNotFound, db2) \<and>
   fst (cancelReservation db2 1) = Inr 1 \<and>
   reservations (snd (cancelReservation db2 1)) = [row_a\<lparr>status := Cancelled\<rparr>] \<and>
   \<not> checkForOverlaps (snd (cancelReservation db2 1)) 1 1768046400500 15"
proof -
  have a: "list_ex (\<lambda>r. res_id r = 1) (reservations db2)"
    by (simp add: db2_rows row_a_def)
  have b: "\<not> list_ex (\<lambda>r. res_id r = 7) (reservations db2)"
    by (simp add: db2_rows row_a_def)
  have c: "\<not> list_ex (\<lambda>r. res_id r \<noteq> 1 \<and> overlap_where 1 (1768046400500 + 15 * 60000) 1768046400500 r)
        (reservations db2)"
    by (simp add: db2_rows row_a_def)
  have r: "res_id row_a = 1" by (simp add: row_a_def)
  show ?thesis
    using a b c cancelReservation_semantics[of db2 7] cancelReservation_semantics[of db2 1]
    by (simp add: Let_def prod_eq_iff db2_rows r)
qed

subsection \<open>createReservation\<close>

lemma four_digit_year_valid: "four_digit_year t \<Longrightarrow> valid_time_value t"
  by (simp add: four_digit_year_def valid_time_value_def)

lemma createReservationSchema_start:
  assumes "createReservationSchema b" and "b_start_time b = Some start"
  shows "four_digit_year start"
  using assms by (simp add: createReservationSchema_def)

lemma createReservation_invalid:
  "\<not> createReservationSchema b \<Longrightarrow> createReservation tz ndb njs d b = (Inl ZodError, d)"
  by (simp add: createReservation_def)



lemma createReservation_found:
  assumes "createReservationSchema b"
    and "b_start_time b = Some start"
    and "find (\<lambda>r. r_id r = b_restaurant_id b) (restaurants d) = Some rest"
    and "find (\<lambda>t. t_id t = b_table_id b \<and> t_restaurant_id t = b_restaurant_id b) (tables d) = Some tbl"
  shows "createReservation tz ndb njs d b =
     (if b_party_size b > capacity tbl
      then (Inl (CapacityExceeded (capacity tbl) (b_party_size b)), d)
      else if \<not> valid_time_value (start + b_duration_minutes b * 60000)
      then (Inl InternalError, d)
      else if \<not> isWithinOperatingHours tz rest start (start + b_duration_minutes b * 60000)
      then (Inl (OutOfHours (opening_time rest) (closing_time rest)), d)
      else if checkForOverlaps d (b_table_id b) start (b_duration_minutes b)
      then (Inl Conflict, d)
      else (Inr (reservation_row (seq_reservations d + 1) (toISOString njs) b start),
            d\<lparr>reservations := reservations d @
               [reservation_row (seq_reservations d + 1) (sqlite_datetime_text ndb) b start],
              seq_reservations := seq_reservations d + 1\<rparr>))"
proof -
  have v: "valid_time_value start"
    using createReservationSchema_start[OF assms(1,2)] by (rule four_digit_year_valid)
  show ?thesis
    using assms v
    by (simp add: createReservation_def insert_reservation_def Let_def reservation_row_def
        checkForOverlaps_throws_def)
qed




subsection \<open>The response of createReservation\<close>

lemma createReservation_Inr:
  assumes "createReservation tz ndb njs d b = (Inr resp, d')"
  shows "\<exists>start. b_start_time b = Some start \<and>
     resp = reservation_row (seq_reservations d + 1) (toISOString njs) b start \<and>
     d' = d\<lparr>reservations := reservations d @
               [reservation_row (seq_reservations d + 1) (sqlite_datetime_text ndb) b start],
              seq_reservations := seq_reservations d + 1\<rparr>"
proof -
  from assms have v: "createReservationSchema b"
    by (auto simp: createReservation_def split: if_splits)
  then obtain start where s: "b_start_time b = Some start"
    by (auto simp: createReservationSchema_def split: option.splits)
  from assms v s obtain rest where r: "find (\<lambda>r. r_id r = b_restaurant_id b) (restaurants d) = Some rest"
    by (cases "find (\<lambda>r. r_id r = b_restaurant_id b) (restaurants d)")
       (auto simp: createReservation_def)
  from assms v s r obtain tbl where
    t: "find (\<lambda>t. t_id t = b_table_id b \<and> t_restaurant_id t = b_restaurant_id b) (tables d) = Some tbl"
    by (cases "find (\<lambda>t. t_id t = b_table_id b \<and> t_restaurant_id t = b_restaurant_id b) (tables d)")
       (auto simp: createReservation_def)
  from assms show ?thesis
    unfolding createReservation_found[OF v s r t] using s
    by (auto split: if_splits)
qed

lemma toString_snoc: "\<exists>s k. k < 10 \<and> toString n = s @ [digit_char k]"
proof (cases "n < 10")
  case True
  then have "toString n = [] @ [digit_char n]" by (simp add: toString.simps)
  with True show ?thesis by blast
next
  case False
  then have "toString n = toString (n div 10) @ [digit_char (n mod 10)]"
    by (simp add: toString.simps)
  moreover have "n mod 10 < 10" by simp
  ultimately show ?thesis by blast
qed

lemma digit_char_not_Z: "k < 10 \<Longrightarrow> digit_char k \<noteq> CHR ''Z''"
proof
  assume k: "k < 10" and "digit_char k = CHR ''Z''"
  then have "of_char (char_of (48 + k) :: char) = (of_char CHR ''Z'' :: nat)"
    by (simp add: digit_char_def)
  with k show False by simp
qed

lemma pad_last: "\<exists>s k. k < 10 \<and> pad n x = s @ [digit_char k]"
proof -
  obtain s k where "k < 10" "toString (nat x) = s @ [digit_char k]"
    using toString_snoc by blast
  then have "pad n x = (replicate (n - length (toString (nat x))) CHR ''0'' @ s) @ [digit_char k]"
    by (simp add: pad_def padStart_def)
  with \<open>k < 10\<close> show ?thesis by blast
qed

lemma sqlite_datetime_text_last: "\<exists>s k. k < 10 \<and> sqlite_datetime_text t = s @ [digit_char k]"
proof -
  obtain s k where sk: "k < 10" "pad 2 ((t mod 86400000 div 1000) mod 60) = s @ [digit_char k]"
    using pad_last by blast
  have "sqlite_datetime_text t =
      (fmt_date (civil_from_days (t div 86400000)) @ '' '' @
       pad 2 (t mod 86400000 div 3600000) @ '':'' @
       pad 2 ((t mod 86400000 div 60000) mod 60) @ '':'' @ s) @ [digit_char k]"
    by (simp add: sqlite_datetime_text_def fmt_hms_def sk(2))
  with sk(1) show ?thesis by blast
qed

lemma toISOString_neq_sqlite_datetime_text: "toISOString t \<noteq> sqlite_datetime_text t'"
proof
  assume eq: "toISOString t = sqlite_datetime_text t'"
  obtain s k where sk: "k < 10" "sqlite_datetime_text t' = s @ [digit_char k]"
    using sqlite_datetime_text_last by blast
  have "last (toISOString t) = CHR ''Z''" by (simp add: toISOString_def)
  moreover have "last (sqlite_datetime_text t') = digit_char k" by (simp add: sk(2))
  ultimately show False using eq digit_char_not_Z[OF sk(1)] by simp
qed

text \<open>
  Claim C6, as stated: on success the response is the persisted row, \<^verbatim>\<open>created_at\<close>
  included. It is not: the row gets SQLite's \<^verbatim>\<open>datetime('now')\<close>, the response a fresh
  \<^verbatim>\<open>new Date().toISOString()\<close>. For the first example request the response carries
  \<^verbatim>\<open>2026-01-09T20:20:00.123Z\<close> and the row \<^verbatim>\<open>2026-01-09 20:20:00\<close>.
\<close>

theorem createReservation_created_at_differs:
  "map_sum http_status created_at (fst (createReservation utc 1767990000000 1767990000123 db1 body_a))
     = Inr ''2026-01-09T20:20:00.123Z'' \<and>
   map created_at (reservations (snd (createReservation utc 1767990000000 1767990000123 db1 body_a)))
     = [''2026-01-09 20:20:00''] \<and>
   fst (createReservation utc 1767990000000 1767990000123 db1 body_a)
     \<noteq> Inr (last (reservations (snd (createReservation utc 1767990000000 1767990000123 db1 body_a))))"
  by (simp add: booking_a db2_def row_a_def)

text \<open>
  Claim C6, amended. On success the response carries the id the insert assigned, the
  validated fields and the status \<^verbatim>\<open>confirmed\<close>, all equal to those of the appended
  row; its \<^verbatim>\<open>created_at\<close> is the runtime's clock in ISO form, which is never the text
  the row stores.
\<close>

theorem createReservation_response:
  assumes "createReservation tz ndb njs d b = (Inr resp, d')"
  shows "reservations d' = reservations d @ [resp\<lparr>created_at := sqlite_datetime_text ndb\<rparr>] \<and>
     res_id resp = seq_reservations d + 1 \<and>
     status resp = Confirmed \<and>
     created_at resp = toISOString njs \<and>
     created_at resp \<noteq> created_at (last (reservations d'))"
proof -
  from createReservation_Inr[OF assms] obtain start where
    r: "resp = reservation_row (seq_reservations d + 1) (toISOString njs) b start"
    and d': "d' = d\<lparr>reservations := reservations d @
               [reservation_row (seq_reservations d + 1) (sqlite_datetime_text ndb) b start],
              seq_reservations := seq_reservations d + 1\<rparr>"
    by blast
  show ?thesis
    unfolding r d' using toISOString_neq_sqlite_datetime_text[of njs ndb]
    by (simp add: reservation_row_def)
qed

theorem createReservation_response_witness:
  "createReservation utc 1767990000000 1767990000123 db1 body_a =
     (Inr (row_a\<lparr>created_at := ''2026-01-09T20:20:00.123Z''\<rparr>), db2) \<and>
   (reservations db2 = reservations db1 @
      [row_a\<lparr>created_at := ''2026-01-09T20:20:00.123Z'',
             created_at := sqlite_datetime_text 1767990000000\<rparr>] \<and>
    res_id (row_a\<lparr>created_at := ''2026-01-09T20:20:00.123Z''\<rparr>) = seq_reservations db1 + 1 \<and>
    status (row_a\<lparr>created_at := ''2026-01-09T20:20:00.123Z''\<rparr>) = Confirmed \<and>
    created_at (row_a\<lparr>created_at := ''2026-01-09T20:20:00.123Z''\<rparr>) = toISOString 1767990000123 \<and>
    created_at (row_a\<lparr>created_at := ''2026-01-09T20:20:00.123Z''\<rparr>)
      \<noteq> created_at (last (reservations db2)))"
  by (rule conjI [OF booking_a createReservation_response [OF booking_a]])

subsection \<open>isWithinOperatingHours\<close>

lemma digit_char_0: "digit_char 0 = CHR ''0''"
  by code_simp

lemma pad2_digits:
  assumes "n < 100"
  shows "padStart 2 CHR ''0'' (toString n) = [digit_char (n div 10), digit_char (n mod 10)]"
proof (cases "n < 10")
  case True
  then show ?thesis by (simp add: toString.simps padStart_def digit_char_0)
next
  case False
  with assms have "n div 10 < 10" by simp
  with False show ?thesis
    by (simp add: toString.simps[of n] toString.simps[of "n div 10"] padStart_def)
qed

lemma getHours_lt: "getHours tz t < 24"
  by (simp add: getHours_def nat_less_iff)

lemma getMinutes_lt: "getMinutes tz t < 60"
  by (simp add: getMinutes_def nat_less_iff)

lemma hhmm_digits:
  "hhmm tz t = [digit_char (getHours tz t div 10), digit_char (getHours tz t mod 10), CHR '':'',
                digit_char (getMinutes tz t div 10), digit_char (getMinutes tz t mod 10)]"
proof -
  have "getHours tz t < 100" "getMinutes tz t < 100"
    using getHours_lt[of tz t] getMinutes_lt[of tz t] by simp_all
  then show ?thesis by (simp add: hhmm_def pad2_digits)
qed

lemma str_less_lexord:
  "str_less a b = ((a, b) \<in> lexord {(x, y). (of_char x :: nat) < of_char y})"
  by (induction a b rule: str_less.induct) auto

lemma hhmm_shift_days:
  assumes "\<forall>x. tz x = off"
  shows "hhmm tz (t + k * 86400000) = hhmm tz t"
proof -
  have h: "(t + k * 86400000 + off * 60000) div 3600000 = (t + off * 60000) div 3600000 + k * 24"
  proof -
    have "t + k * 86400000 + off * 60000 = (t + off * 60000) + (k * 24) * 3600000" by simp
    then show ?thesis by (metis div_mult_self1 zero_neq_numeral add.commute)
  qed
  have m: "(t + k * 86400000 + off * 60000) div 60000 = (t + off * 60000) div 60000 + k * 1440"
  proof -
    have "t + k * 86400000 + off * 60000 = (t + off * 60000) + (k * 1440) * 60000" by simp
    then show ?thesis by (metis div_mult_self1 zero_neq_numeral add.commute)
  qed
  have tz: "tz x = off" for x using assms by blast
  have "getHours tz (t + k * 86400000) = nat (((t + off * 60000) div 3600000 + k * 24) mod 24)"
    unfolding getHours_def tz h ..
  also have "\<dots> = getHours tz t"
    unfolding getHours_def tz by (simp only: mod_mult_self1)
  finally have hours: "getHours tz (t + k * 86400000) = getHours tz t" .
  have "k * 1440 = (k * 24) * 60" by simp
  then have "((t + off * 60000) div 60000 + k * 1440) mod 60 = ((t + off * 60000) div 60000) mod 60"
    by (simp only: mod_mult_self1)
  then have "getMinutes tz (t + k * 86400000) = getMinutes tz t"
    unfolding getMinutes_def tz m by (rule arg_cong)
  with hours show ?thesis by (simp only: hhmm_def)
qed

text \<open>
  Claim C3. The operating-hours check renders the wall-clock time of day of the start and
  of the end as zero-padded \<^verbatim>\<open>HH:MM\<close> (two digits of an hour below 24, a colon, two
  digits of a minute below 60) and answers true exactly when the start text is not below
  the opening time and the end text is not above the closing time in the lexicographic
  order of the characters. Nothing but the two texts enters the comparison: instants
  with the same time of day give the same answer, and in a zone with a fixed offset
  moving the start and the end by whole days changes nothing.
\<close>

theorem isWithinOperatingHours_spec:
  "isWithinOperatingHours tz r s e =
     (str_ge (hhmm tz s) (opening_time r) \<and> str_le (hhmm tz e) (closing_time r)) \<and>
   str_ge (hhmm tz s) (opening_time r) =
     ((hhmm tz s, opening_time r) \<notin> lexord {(x, y). (of_char x :: nat) < of_char y}) \<and>
   str_le (hhmm tz e) (closing_time r) =
     ((closing_time r, hhmm tz e) \<notin> lexord {(x, y). (of_char x :: nat) < of_char y}) \<and>
   hhmm tz s =
     [digit_char (getHours tz s div 10), digit_char (getHours tz s mod 10), CHR '':'',
      digit_char (getMinutes tz s div 10), digit_char (getMinutes tz s mod 10)] \<and>
   getHours tz s < 24 \<and> getMinutes tz s < 60 \<and>
   (hhmm tz s' = hhmm tz s \<and> hhmm tz e' = hhmm tz e \<longrightarrow>
      isWithinOperatingHours tz r s' e' = isWithinOperatingHours tz r s e) \<and>
   ((\<forall>x. tz x = off) \<longrightarrow>
      isWithinOperatingHours tz r (s + j * 86400000) (e + k * 86400000)
        = isWithinOperatingHours tz r s e)"
  using hhmm_shift_days[of tz off]
  by (simp add: isWithinOperatingHours_def Let_def str_ge_def str_le_def str_less_lexord
        hhmm_digits[symmetric] getHours_lt getMinutes_lt)

lemma hours_examples:
  "hhmm utc (1768046400000 + 3 * 86400000) = hhmm utc 1768046400000"
  "hhmm utc (1768051800000 + 3 * 86400000) = hhmm utc 1768051800000"
  "isWithinOperatingHours utc grill_house 1768046400000 1768051800000"
  "\<not> isWithinOperatingHours utc grill_house 1768035600000 1768041000000"
  by code_simp+

theorem isWithinOperatingHours_spec_witness:
  "(\<forall>x. utc x = 0) \<and>
   hhmm utc (1768046400000 + 3 * 86400000) = hhmm utc 1768046400000 \<and>
   hhmm utc (1768051800000 + 3 * 86400000) = hhmm utc 1768051800000 \<and>
   isWithinOperatingHours utc grill_house (1768046400000 + 3 * 86400000) (1768051800000 + 3 * 86400000)
     = isWithinOperatingHours utc grill_house 1768046400000 1768051800000 \<and>
   isWithinOperatingHours utc grill_house 1768046400000 1768051800000"
proof -
  have u: "\<forall>x. utc x = 0" by (simp add: utc_def)
  note t = isWithinOperatingHours_spec[of utc grill_house 1768046400000 1768051800000
        "1768046400000 + 3 * 86400000" "1768051800000 + 3 * 86400000" 0 3 3]
  from t u have "isWithinOperatingHours utc grill_house (1768046400000 + 3 * 86400000)
       (1768051800000 + 3 * 86400000)
     = isWithinOperatingHours utc grill_house 1768046400000 1768051800000"
    by blast
  with u hours_examples(1,2,3) show ?thesis by blast
qed

subsection \<open>createRestaurant and the stored times\<close>

lemma createRestaurant_restaurants:
  "restaurants (snd (createRestaurant ndb njs d b)) =
     (if createRestaurantSchema b
      then restaurants d @ [\<lparr>r_id = seq_restaurants d + 1, name = rb_name b,
              opening_time = rb_opening_time b, closing_time = rb_closing_time b,
              r_created_at = sqlite_datetime_text ndb\<rparr>]
      else restaurants d)"
  by (simp add: createRestaurant_def Let_def)

lemma createRestaurant_Inr:
  "fst (createRestaurant ndb njs d b) = Inr r \<Longrightarrow>
     createRestaurantSchema b \<and> opening_time r = rb_opening_time b \<and>
     closing_time r = rb_closing_time b"
  by (auto simp: createRestaurant_def Let_def split: if_splits)

lemma addTable_restaurants: "restaurants (snd (addTable d param body)) = restaurants d"
  by (simp add: addTable_def Let_def split: option.splits js_num.splits prod.splits)

lemma createReservation_restaurants:
  "restaurants (snd (createReservation tz ndb njs d b)) = restaurants d"
  by (simp add: createReservation_def insert_reservation_def Let_def split: option.splits)

lemma cancelReservation_restaurants: "restaurants (snd (cancelReservation d i)) = restaurants d"
  by (simp add: cancelReservation_def split: option.splits)

lemma reachable_times_match: "reachable d \<Longrightarrow> list_all times_match (restaurants d)"
proof (induction rule: reachable.induct)
  case reachable_empty
  then show ?case by (simp add: empty_db_def)
next
  case (reachable_createRestaurant d now_db now_js b)
  then show ?case
    by (simp add: createRestaurant_restaurants times_match_def createRestaurantSchema_def)
next
  case (reachable_addTable d param body)
  then show ?case by (simp add: addTable_restaurants)
next
  case (reachable_createReservation d tz now_db now_js body)
  then show ?case by (simp add: createReservation_restaurants)
next
  case (reachable_cancelReservation d i)
  then show ?case by (simp add: cancelReservation_restaurants)
qed

lemma late_created:
  "createRestaurant 0 0 empty_db late_body =
     (Inr \<lparr>r_id = 1, name = ''Night Owl'', opening_time = ''99:99'', closing_time = ''25:61'',
           r_created_at = ''1970-01-01T00:00:00.000Z''\<rparr>,
      empty_db\<lparr>restaurants :=
          [\<lparr>r_id = 1, name = ''Night Owl'', opening_time = ''99:99'', closing_time = ''25:61'',
            r_created_at = ''1970-01-01 00:00:00''\<rparr>],
        seq_restaurants := 1\<rparr>)"
  by code_simp

lemma late_times: "\<not> spec_wall_clock ''99:99''" "\<not> spec_wall_clock ''25:61''"
  by code_simp+

text \<open>
  Claim C8, as stated: every accepted restaurant has opening and closing times with an
  hour from 00 to 23 and a minute from 00 to 59. The schema tests two digits, a colon and
  two digits and nothing more: a restaurant opening at \<^verbatim>\<open>99:99\<close> and closing at
  \<^verbatim>\<open>25:61\<close> is accepted with 201 and stored.
\<close>

theorem createRestaurant_accepts_any_digits:
  "map_sum http_status opening_time (fst (createRestaurant 0 0 empty_db late_body)) = Inr ''99:99'' \<and>
   map_sum http_status closing_time (fst (createRestaurant 0 0 empty_db late_body)) = Inr ''25:61'' \<and>
   map opening_time (restaurants (snd (createRestaurant 0 0 empty_db late_body))) = [''99:99''] \<and>
   map closing_time (restaurants (snd (createRestaurant 0 0 empty_db late_body))) = [''25:61''] \<and>
   \<not> spec_wall_clock ''99:99'' \<and> \<not> spec_wall_clock ''25:61''"
  by (simp add: late_created late_times)

text \<open>
  Claim C8, amended. Every accepted restaurant has opening and closing times made of two
  decimal digits, a colon and two decimal digits, and so has every restaurant of every
  reachable state: creating a restaurant only appends a row, and no other handler
  changes the restaurants.
\<close>

theorem restaurant_times_shape:
  "(fst (createRestaurant ndb njs d b) = Inr r \<longrightarrow>
      hhmm_regex (opening_time r) \<and> hhmm_regex (closing_time r)) \<and>
   (reachable d \<longrightarrow> list_all times_match (restaurants d)) \<and>
   (\<exists>new. restaurants (snd (createRestaurant ndb njs d b)) = restaurants d @ new) \<and>
   restaurants (snd (addTable d param tbody)) = restaurants d \<and>
   restaurants (snd (createReservation tz ndb njs d rbody)) = restaurants d \<and>
   restaurants (snd (cancelReservation d i)) = restaurants d"
proof (intro conjI impI)
  assume "fst (createRestaurant ndb njs d b) = Inr r"
  from createRestaurant_Inr[OF this]
  show "hhmm_regex (opening_time r)" "hhmm_regex (closing_time r)"
    by (simp_all add: createRestaurantSchema_def)
next
  assume "reachable d"
  then show "list_all times_match (restaurants d)" by (rule reachable_times_match)
next
  show "\<exists>new. restaurants (snd (createRestaurant ndb njs d b)) = restaurants d @ new"
    by (simp add: createRestaurant_restaurants)
qed (simp_all add: addTable_restaurants createReservation_restaurants cancelReservation_restaurants)

lemma grill_created:
  "createRestaurant 0 0 empty_db grill_body =
     (Inr (grill_house\<lparr>r_created_at := ''1970-01-01T00:00:00.000Z''\<rparr>),
      empty_db\<lparr>restaurants := [grill_house\<lparr>r_created_at := ''1970-01-01 00:00:00''\<rparr>],
               seq_restaurants := 1\<rparr>)"
  by code_simp

theorem restaurant_times_shape_witness:
  "fst (createRestaurant 0 0 empty_db grill_body)
     = Inr (grill_house\<lparr>r_created_at := ''1970-01-01T00:00:00.000Z''\<rparr>) \<and>
   hhmm_regex (opening_time (grill_house\<lparr>r_created_at := ''1970-01-01T00:00:00.000Z''\<rparr>)) \<and>
   reachable (snd (createRestaurant 0 0 empty_db grill_body)) \<and>
   list_all times_match (restaurants (snd (createRestaurant 0 0 empty_db grill_body)))"
proof -
  have a: "fst (createRestaurant 0 0 empty_db grill_body)
     = Inr (grill_house\<lparr>r_created_at := ''1970-01-01T00:00:00.000Z''\<rparr>)"
    by (simp add: grill_created)
  have b: "reachable (snd (createRestaurant 0 0 empty_db grill_body))"
    by (rule reachable_createRestaurant[OF reachable_empty])
  show ?thesis
    using a b
      restaurant_times_shape[of 0 0 empty_db grill_body
        "grill_house\<lparr>r_created_at := ''1970-01-01T00:00:00.000Z''\<rparr>"]
      restaurant_times_shape[of 0 0 "snd (createRestaurant 0 0 empty_db grill_body)"]
    by blast
qed

subsection \<open>addTable\<close>

lemma addTable_no_param: "addTable d (Some []) body = addTable d None body"
  by (simp add: addTable_def)





subsection \<open>Calendar dates\<close>

text \<open>The date of every day number is a day of the calendar.\<close>

lemma month_day_ok:
  assumes "0 \<le> doy" "doy \<le> 365" "month_day doy = (m, d)"
  shows "1 \<le> m \<and> m \<le> 12 \<and> 1 \<le> d \<and>
    (m = 2 \<longrightarrow> d = doy - 336) \<and>
    (m \<noteq> 2 \<longrightarrow> d \<le> (if m = 4 \<or> m = 6 \<or> m = 9 \<or> m = 11 then 30 else 31))"
proof -
  define mp where "mp = (5 * doy + 2) div 153"
  define r where "r = (5 * doy + 2) mod 153"
  have r: "0 \<le> r" "r < 153" "5 * doy + 2 = 153 * mp + r"
    by (simp_all add: r_def mp_def)
  have mp: "0 \<le> mp" "mp \<le> 11" using assms(1,2) r by linarith+
  have md: "m = (if mp < 10 then mp + 3 else mp - 9)" "d = doy - (153 * mp + 2) div 5 + 1"
    using assms(3) by (auto simp add: month_day_def Let_def mp_def)
  from mp consider "mp = 0" | "mp = 1" | "mp = 2" | "mp = 3" | "mp = 4" | "mp = 5"
    | "mp = 6" | "mp = 7" | "mp = 8" | "mp = 9" | "mp = 10" | "mp = 11" by atomize_elim arith
  then show ?thesis
    using r md by cases simp_all
qed

lemma year_of_era_ok:
  assumes "0 \<le> doe" "doe < 146097" "year_of_era doe = (yoe, doy)"
  shows "0 \<le> doy \<and> doy \<le> 365 \<and> 0 \<le> yoe \<and> yoe \<le> 399 \<and>
     (doy = 365 \<longrightarrow> (yoe + 1) mod 4 = 0 \<and> ((yoe + 1) mod 100 \<noteq> 0 \<or> yoe + 1 = 400))"
proof -
  define c where "c = min 3 (doe div 36524)"
  define doc where "doc = doe - c * 36524"
  define q where "q = doc div 1461"
  define doq where "doq = doc mod 1461"
  define yq where "yq = min 3 (doq div 365)"
  have res: "yoe = c * 100 + q * 4 + yq" "doy = doq - yq * 365"
    using assms(3) by (auto simp: year_of_era_def Let_def c_def doc_def q_def doq_def yq_def)
  define r1 where "r1 = doe mod 36524"
  have r1: "0 \<le> r1" "r1 < 36524" "doe = 36524 * (doe div 36524) + r1"
    by (simp_all add: r1_def)
  have c: "0 \<le> c" "c \<le> 3" using assms(1) r1 unfolding c_def by (auto simp: min_def)
  have doc: "0 \<le> doc" "doc \<le> 36524" "c < 3 \<Longrightarrow> doc < 36524"
    using assms(1,2) r1 unfolding doc_def c_def by (auto simp: min_def)
  have dq: "0 \<le> doq" "doq < 1461" "doc = 1461 * q + doq"
    by (simp_all add: q_def doq_def)
  have q: "0 \<le> q" "q \<le> 24" "c < 3 \<Longrightarrow> q = 24 \<Longrightarrow> doq < 1460"
    using doc dq by linarith+
  define r3 where "r3 = doq mod 365"
  define k where "k = doq div 365"
  have r3: "0 \<le> r3" "r3 < 365" "doq = 365 * k + r3"
    by (simp_all add: r3_def k_def)
  have k: "0 \<le> k" "k \<le> 4" using dq r3 by linarith+
  have yqk: "yq = (if k \<le> 3 then k else 3)" unfolding yq_def k_def by (simp add: min_def)
  have yq: "0 \<le> yq" "yq \<le> 3" using k unfolding yqk by auto
  have doy: "0 \<le> doy" "doy \<le> 365" "doy = 365 \<Longrightarrow> yq = 3 \<and> doq = 1460"
    using dq r3 k unfolding res yqk by (auto split: if_splits)
  have yoe: "0 \<le> yoe" "yoe \<le> 399" using c q yq unfolding res by linarith+
  have leap: "(yoe + 1) mod 4 = 0 \<and> ((yoe + 1) mod 100 \<noteq> 0 \<or> yoe + 1 = 400)" if "doy = 365"
  proof -
    from doy(3)[OF that] have a: "yq = 3" "doq = 1460" by auto
    have "yoe + 1 = 4 * (c * 25 + q + 1)" unfolding res a by simp
    then have m4: "(yoe + 1) mod 4 = 0" by simp
    show ?thesis
    proof (cases "q \<le> 23")
      case True
      define x where "x = q * 4 + 4"
      have x: "0 < x" "x < 100" using q(1) True by (simp_all add: x_def)
      have "yoe + 1 = x + c * 100" unfolding res a x_def by simp
      then have "(yoe + 1) mod 100 = x" using x by simp
      with m4 x show ?thesis by simp
    next
      case False
      then have q24: "q = 24" using q by simp
      then have "c = 3" using q(3) a c by force
      then show ?thesis using m4 unfolding res a q24 by simp
    qed
  qed
  show ?thesis using doy yoe leap by blast
qed

lemma civil_from_days_valid:
  assumes "civil_from_days z = (y, m, d)"
  shows "1 \<le> m \<and> m \<le> 12 \<and> 1 \<le> d \<and> d \<le> days_in_month y m"
proof -
  define w where "w = z + 719468"
  obtain yoe doy where yd: "year_of_era (w mod 146097) = (yoe, doy)"
    by (cases "year_of_era (w mod 146097)")
  obtain m' d' where md: "month_day doy = (m', d')"
    by (cases "month_day doy")
  have eq: "y = (if m' \<le> 2 then (w div 146097) * 400 + yoe + 1 else (w div 146097) * 400 + yoe)"
      "m = m'" "d = d'"
    using assms by (auto simp add: civil_from_days_def Let_def w_def[symmetric] yd md)
  have "0 \<le> w mod 146097" "w mod 146097 < 146097" by simp_all
  note yok = year_of_era_ok[OF this yd]
  have doy: "0 \<le> doy" "doy \<le> 365" using yok by simp_all
  have leap: "(yoe + 1) mod 4 = 0 \<and> ((yoe + 1) mod 100 \<noteq> 0 \<or> yoe + 1 = 400)" if "doy = 365"
    using yok that by simp
  note mok = month_day_ok[OF doy md]
  have m: "1 \<le> m'" "m' \<le> 12" "1 \<le> d'" using mok by simp_all
  have feb: "d' = doy - 336" if "m' = 2" using mok that by simp
  have other: "d' \<le> (if m' = 4 \<or> m' = 6 \<or> m' = 9 \<or> m' = 11 then 30 else 31)" if "m' \<noteq> 2"
    using mok that by simp
  have "d' \<le> days_in_month y m'"
  proof (cases "m' = 2")
    case False
    with other show ?thesis by (simp add: days_in_month_def)
  next
    case True
    then have y: "y = (w div 146097) * 400 + (yoe + 1)" using eq(1) by simp
    show ?thesis
    proof (cases "doy = 365")
      case False
      with doy feb[OF True] have "d' \<le> 28" by simp
      then show ?thesis using True by (simp add: days_in_month_def)
    next
      case d365: True
      have l: "(yoe + 1) mod 4 = 0" "(yoe + 1) mod 100 \<noteq> 0 \<or> yoe + 1 = 400"
        using leap[OF d365] by simp_all
      have "400 = 4 * (100::int)" by simp
      have y4: "y mod 4 = (yoe + 1) mod 4"
      proof -
        have "y = (yoe + 1) + ((w div 146097) * 100) * 4" unfolding y by simp
        then show ?thesis by (simp only: mod_mult_self1)
      qed
      have y100: "y mod 100 = (yoe + 1) mod 100"
      proof -
        have "y = (yoe + 1) + ((w div 146097) * 4) * 100" unfolding y by simp
        then show ?thesis by (simp only: mod_mult_self1)
      qed
      have y400: "yoe + 1 = 400 \<Longrightarrow> y mod 400 = 0"
      proof -
        assume "yoe + 1 = 400"
        then have "y = (w div 146097 + 1) * 400" unfolding y by simp
        then show ?thesis by simp
      qed
      have "is_leap y" unfolding is_leap_def using l y4 y100 y400 by auto
      moreover have "d' = 29" using feb[OF True] d365 by simp
      ultimately show ?thesis using True by (simp add: days_in_month_def)
    qed
  qed
  with m show ?thesis by (simp add: eq)
qed

text \<open>A date text is read back as the numbers it was written from.\<close>

lemma digit_char_table:
  "map digit_char [0..<10] = ''0123456789''"
  "map (\<lambda>k. digit_val (digit_char k)) [0..<10] = [0..<10]"
  by code_simp+

lemma digit_char_props:
  assumes "k < 10"
  shows "is_digit (digit_char k) \<and> digit_val (digit_char k) = k"
proof -
  have k: "k < length [0..<10]" using assms by simp
  have "digit_char k = map digit_char [0..<10] ! k"
    using assms by (simp only: nth_map[OF k] nth_upt) simp
  also have "\<dots> \<in> set (map digit_char [0..<10])"
    using k by (simp only: nth_mem length_map)
  finally have "is_digit (digit_char k)"
    unfolding digit_char_table(1) is_digit_def .
  moreover have "digit_val (digit_char k) = map (\<lambda>k. digit_val (digit_char k)) [0..<10] ! k"
    using assms by (simp only: nth_map[OF k] nth_upt) simp
  then have "digit_val (digit_char k) = k"
    unfolding digit_char_table(2) using assms by simp
  ultimately show ?thesis by simp
qed

lemma digits_value_snoc: "digits_value (xs @ [c]) = digits_value xs * 10 + digit_val c"
  by (simp add: digits_value_def)

lemma toString_digits: "list_all is_digit (toString n)"
proof (induction n rule: toString.induct)
  case (1 n)
  show ?case
  proof (cases "n < 10")
    case True
    then show ?thesis by (simp add: toString.simps[of n] digit_char_props)
  next
    case False
    then show ?thesis using 1 by (simp add: toString.simps[of n] digit_char_props)
  qed
qed

lemma digits_value_toString: "digits_value (toString n) = n"
proof (induction n rule: toString.induct)
  case (1 n)
  show ?case
  proof (cases "n < 10")
    case True
    then show ?thesis
      using digits_value_snoc[of "[]" "digit_char n"]
      by (simp add: toString.simps[of n] digit_char_props digits_value_def)
  next
    case False
    then show ?thesis using 1
      by (simp add: toString.simps[of n] digits_value_snoc digit_char_props)
  qed
qed

lemma length_toString: "0 < k \<Longrightarrow> n < 10 ^ k \<Longrightarrow> length (toString n) \<le> k"
proof (induction n arbitrary: k rule: toString.induct)
  case (1 n)
  show ?case
  proof (cases "n < 10")
    case True
    then show ?thesis using "1.prems" by (simp add: toString.simps[of n])
  next
    case False
    obtain j where kj: "k = Suc j" using "1.prems"(1) by (cases k) auto
    have "0 < j"
    proof (rule ccontr)
      assume "\<not> 0 < j"
      then have "k = 1" using kj by simp
      with "1.prems"(2) False show False by simp
    qed
    note j = kj this
    have "n div 10 < 10 ^ j" using "1.prems"(2) j by (simp add: less_mult_imp_div_less)
    from "1.IH"[OF False j(2) this] show ?thesis
      using False j by (simp add: toString.simps[of n])
  qed
qed

lemma digits_value_zeros: "digits_value (replicate j CHR ''0'' @ xs) = digits_value xs"
proof (induction j)
  case 0
  then show ?case by simp
next
  case (Suc j)
  have "digit_val CHR ''0'' = 0" by (simp add: digit_val_def)
  then have "digits_value (CHR ''0'' # ys) = digits_value ys" for ys
    by (simp add: digits_value_def)
  with Suc show ?case by simp
qed

lemma pad_props:
  assumes "0 \<le> x" "x < 10 ^ k" "0 < k"
  shows "length (pad k x) = k" "list_all is_digit (pad k x)" "int (digits_value (pad k x)) = x"
proof -
  have "nat x < 10 ^ k" using assms(1,2) by (simp add: nat_less_iff)
  from length_toString[OF assms(3) this]
  show "length (pad k x) = k" by (simp add: pad_def padStart_def)
  have "is_digit CHR ''0''" by (simp add: is_digit_def)
  then have "list_all is_digit (replicate j CHR ''0'')" for j
    by (induction j) simp_all
  then show "list_all is_digit (pad k x)"
    by (simp add: pad_def padStart_def toString_digits)
  show "int (digits_value (pad k x)) = x"
    using assms(1) by (simp add: pad_def padStart_def digits_value_zeros digits_value_toString)
qed

lemma list4: "length xs = 4 \<Longrightarrow> \<exists>a b c d. xs = [a, b, c, d]"
  by (auto simp: numeral_eq_Suc length_Suc_conv)

lemma list2: "length xs = 2 \<Longrightarrow> \<exists>a b. xs = [a, b]"
  by (auto simp: numeral_eq_Suc length_Suc_conv)

lemma fmt_date_parse:
  assumes "0 \<le> y" "y \<le> 9999" "1 \<le> m" "m \<le> 12" "1 \<le> d" "d \<le> 31"
  shows "date_regex (fmt_date (y, m, d))"
    "int (digits_value (take 4 (fmt_date (y, m, d)))) = y"
    "int (digits_value (take 2 (drop 5 (fmt_date (y, m, d))))) = m"
    "int (digits_value (drop 8 (fmt_date (y, m, d)))) = d"
proof -
  have py: "length (pad 4 y) = 4" "list_all is_digit (pad 4 y)" "int (digits_value (pad 4 y)) = y"
    using pad_props[of y 4] assms(1,2) by simp_all
  have pm: "length (pad 2 m) = 2" "list_all is_digit (pad 2 m)" "int (digits_value (pad 2 m)) = m"
    using pad_props[of m 2] assms(3,4) by simp_all
  have pd: "length (pad 2 d) = 2" "list_all is_digit (pad 2 d)" "int (digits_value (pad 2 d)) = d"
    using pad_props[of d 2] assms(5,6) by simp_all
  have f: "fmt_date (y, m, d) = pad 4 y @ ''-'' @ pad 2 m @ ''-'' @ pad 2 d"
    by (simp add: fmt_date_def)
  from list4[OF py(1)] obtain a1 a2 a3 a4 where a: "pad 4 y = [a1, a2, a3, a4]" by blast
  from list2[OF pm(1)] obtain b1 b2 where b: "pad 2 m = [b1, b2]" by blast
  from list2[OF pd(1)] obtain c1 c2 where c: "pad 2 d = [c1, c2]" by blast
  show "date_regex (fmt_date (y, m, d))"
    using py(2) pm(2) pd(2) unfolding f a b c by (simp add: date_regex_def)
  show "int (digits_value (take 4 (fmt_date (y, m, d)))) = y"
    using py(3) unfolding f a b c by simp
  show "int (digits_value (take 2 (drop 5 (fmt_date (y, m, d))))) = m"
    using pm(3) unfolding f a b c by simp
  show "int (digits_value (drop 8 (fmt_date (y, m, d)))) = d"
    using pd(3) unfolding f a b c by simp
qed

lemma days_in_month_le: "days_in_month y m \<le> 31"
  by (simp add: days_in_month_def)

lemma sqlite_date_is_calendar_date:
  assumes "sqlite_date t = Some s"
  shows "is_calendar_date s"
proof -
  obtain y m d where c: "civil_from_days (t div 86400000) = (y, m, d)"
    by (cases "civil_from_days (t div 86400000)")
  from assms have y: "0 \<le> y" "y \<le> 9999" and s: "s = fmt_date (y, m, d)"
    by (auto simp: sqlite_date_def c split: if_splits)
  from civil_from_days_valid[OF c] have v: "1 \<le> m" "m \<le> 12" "1 \<le> d" "d \<le> days_in_month y m"
    by simp_all
  have "d \<le> 31" using v(4) days_in_month_le[of y m] by linarith
  from fmt_date_parse[OF y v(1,2,3) this] v show ?thesis
    unfolding s is_calendar_date_def by (simp add: Let_def)
qed

subsection \<open>getReservationsByDate\<close>

text \<open>
  Claim C10. The 400 guard of the listing tests the shape \<^verbatim>\<open>\d{4}-\d{2}-\d{2}\<close> only. A
  text of that shape that names no day of the calendar (month 13, day 40, 30 February)
  passes it; for an existing restaurant the answer is then 200 with the empty list,
  since the date of no stored start equals such a text; for a missing restaurant it
  is 404.
\<close>

theorem getReservationsByDate_shape_only:
  "(\<not> date_regex date \<longrightarrow> getReservationsByDate d rid date = Inl BadDateFormat) \<and>
   http_status BadDateFormat = 400 \<and>
   (date_regex date \<and> \<not> list_ex (\<lambda>r. r_id r = rid) (restaurants d) \<longrightarrow>
      getReservationsByDate d rid date = Inl RestaurantNotFound) \<and>
   (date_regex date \<and> \<not> is_calendar_date date \<and> list_ex (\<lambda>r. r_id r = rid) (restaurants d) \<longrightarrow>
      getReservationsByDate d rid date = Inr [])"
proof (intro conjI impI)
  assume a: "date_regex date \<and> \<not> is_calendar_date date \<and> list_ex (\<lambda>r. r_id r = rid) (restaurants d)"
  then obtain rest where r: "find (\<lambda>r. r_id r = rid) (restaurants d) = Some rest"
    by (cases "find (\<lambda>r. r_id r = rid) (restaurants d)") (auto simp: find_None_iff list_ex_iff)
  have n: "sqlite_date (start_time x) \<noteq> Some date" for x
    using a sqlite_date_is_calendar_date[of "start_time x" date] by blast
  have "filter (\<lambda>r. restaurant_id r = rid \<and> sqlite_date (start_time r) = Some date)
      (reservations d) = []"
    by (simp add: n)
  then show "getReservationsByDate d rid date = Inr []"
    using a r by (simp add: getReservationsByDate_def)
next
  assume b: "date_regex date \<and> \<not> list_ex (\<lambda>r. r_id r = rid) (restaurants d)"
  then have "find (\<lambda>r. r_id r = rid) (restaurants d) = None"
    by (simp add: find_None_iff list_ex_iff)
  with b show "getReservationsByDate d rid date = Inl RestaurantNotFound"
    by (simp add: getReservationsByDate_def)
qed (simp_all add: getReservationsByDate_def)

lemma by_date_examples:
  "date_regex ''2026-13-40''" "\<not> is_calendar_date ''2026-13-40''"
  "date_regex ''2026-02-30''" "\<not> is_calendar_date ''2026-02-30''"
  "list_ex (\<lambda>r. r_id r = 1) (restaurants db4)"
  "getReservationsByDate db4 1 ''2026-01-10'' = Inr [(row_c, 1, 4)]"
  "\<not> date_regex ''2026-1-10''"
  by code_simp+

theorem getReservationsByDate_shape_only_witness:
  "date_regex ''2026-13-40'' \<and> \<not> is_calendar_date ''2026-13-40'' \<and>
   list_ex (\<lambda>r. r_id r = 1) (restaurants db4) \<and>
   getReservationsByDate db4 1 ''2026-13-40'' = Inr [] \<and>
   getReservationsByDate db4 1 ''2026-02-30'' = Inr [] \<and>
   \<not> list_ex (\<lambda>r. r_id r = 5) (restaurants db4) \<and>
   getReservationsByDate db4 5 ''2026-13-40'' = Inl RestaurantNotFound \<and>
   \<not> date_regex ''2026-1-10'' \<and>
   getReservationsByDate db4 1 ''2026-1-10'' = Inl BadDateFormat"
proof -
  have n: "\<not> list_ex (\<lambda>r. r_id r = 5) (restaurants db4)" by code_simp
  show ?thesis
    using by_date_examples n
      getReservationsByDate_shape_only[of "''2026-13-40''" db4 1]
      getReservationsByDate_shape_only[of "''2026-02-30''" db4 1]
      getReservationsByDate_shape_only[of "''2026-13-40''" db4 5]
      getReservationsByDate_shape_only[of "''2026-1-10''" db4 1]
    by blast
qed

subsection \<open>getAvailableSlots\<close>






























subsection \<open>What the overlap check does guarantee\<close>

text \<open>
  In every reachable state no two active reservations of a table that lie within the
  years 0000 to 9999 clash at the granularity of whole seconds; when every stored
  reservation lies within these years and starts on a whole second this is the
  specification's invariant.
\<close>

lemma no_seconds_clash_snoc:
  "no_seconds_clash (rs @ [r]) = (no_seconds_clash rs \<and> \<not> list_ex (\<lambda>e. seconds_clash e r) rs)"
  by (induction rs) (auto simp: list_ex_iff)

lemma seconds_clash_overlap_where:
  assumes "seconds_clash e r"
  shows "overlap_where (table_id r) (start_time r + duration_minutes r * 60000) (start_time r) e"
proof -
  from assms have we: "within_years e" and wr: "within_years r"
    by (simp_all add: seconds_clash_def)
  have "(start_time r + duration_minutes r * 60000) div 1000
      = start_time r div 1000 + 60 * duration_minutes r"
    by simp
  then have "four_digit_year (start_time r + duration_minutes r * 60000)"
    using wr unfolding within_years_def four_digit_year_def by linarith
  then have en: "sqlite_datetime (start_time r + duration_minutes r * 60000)
      = Some (start_time r div 1000 + 60 * duration_minutes r)"
    by (simp add: sqlite_datetime_def)
  have st: "sqlite_datetime (start_time e) = Some (start_time e div 1000)"
    "sqlite_datetime (start_time r) = Some (start_time r div 1000)"
    using we wr by (simp_all add: within_years_def sqlite_datetime_def)
  show ?thesis
    using assms
    unfolding overlap_where_def en st sqlite_datetime_plus_minutes_eq[OF we]
    by (simp add: seconds_clash_def active_def sql_less_def)
qed

lemma seconds_clash_cancel:
  "seconds_clash (if res_id a = i then a\<lparr>status := Cancelled\<rparr> else a)
                 (if res_id b = i then b\<lparr>status := Cancelled\<rparr> else b) \<Longrightarrow> seconds_clash a b"
  by (simp add: seconds_clash_def active_def split: if_splits)

lemma no_seconds_clash_cancel:
  "no_seconds_clash rs \<Longrightarrow> no_seconds_clash (cancel_rows i rs)"
proof (induction rs)
  case Nil
  then show ?case by (simp add: cancel_rows_def)
next
  case (Cons r rs)
  have "\<not> list_ex (seconds_clash (if res_id r = i then r\<lparr>status := Cancelled\<rparr> else r))
          (cancel_rows i rs)"
  proof
    assume "list_ex (seconds_clash (if res_id r = i then r\<lparr>status := Cancelled\<rparr> else r))
          (cancel_rows i rs)"
    then obtain x where "x \<in> set rs"
      "seconds_clash (if res_id r = i then r\<lparr>status := Cancelled\<rparr> else r)
                     (if res_id x = i then x\<lparr>status := Cancelled\<rparr> else x)"
      unfolding cancel_rows_def list_ex_iff set_map by blast
    then have "list_ex (seconds_clash r) rs"
      unfolding list_ex_iff using seconds_clash_cancel by blast
    with Cons.prems show False by simp
  qed
  moreover have "no_seconds_clash (cancel_rows i rs)" using Cons by simp
  moreover have "cancel_rows i (r # rs) =
      (if res_id r = i then r\<lparr>status := Cancelled\<rparr> else r) # cancel_rows i rs"
    by (simp add: cancel_rows_def)
  ultimately show ?case by (simp only: no_seconds_clash.simps) simp
qed

lemma createRestaurant_reservations:
  "reservations (snd (createRestaurant ndb njs d b)) = reservations d"
  by (simp add: createRestaurant_def Let_def)

lemma addTable_reservations: "reservations (snd (addTable d param body)) = reservations d"
  by (simp add: addTable_def Let_def split: option.splits js_num.splits prod.splits)

lemma cancelReservation_reservations:
  "reservations (snd (cancelReservation d i)) = reservations d \<or>
   reservations (snd (cancelReservation d i)) = cancel_rows i (reservations d)"
  by (simp add: cancelReservation_def cancel_rows_def split: option.splits)

lemma createReservation_cases:
  "snd (createReservation tz ndb njs d b) = d \<or>
   (\<exists>start. \<not> checkForOverlaps d (b_table_id b) start (b_duration_minutes b) \<and>
      snd (createReservation tz ndb njs d b) =
        d\<lparr>reservations := reservations d @
               [reservation_row (seq_reservations d + 1) (sqlite_datetime_text ndb) b start],
          seq_reservations := seq_reservations d + 1\<rparr>)"
  by (auto simp: createReservation_def insert_reservation_def reservation_row_def Let_def
           split: option.splits if_splits)

lemma createReservation_no_seconds_clash:
  assumes "no_seconds_clash (reservations d)"
  shows "no_seconds_clash (reservations (snd (createReservation tz ndb njs d b)))"
proof -
  from createReservation_cases[of tz ndb njs d b] show ?thesis
  proof
    assume "snd (createReservation tz ndb njs d b) = d"
    with assms show ?thesis by simp
  next
    assume "\<exists>start. \<not> checkForOverlaps d (b_table_id b) start (b_duration_minutes b) \<and>
      snd (createReservation tz ndb njs d b) =
        d\<lparr>reservations := reservations d @
               [reservation_row (seq_reservations d + 1) (sqlite_datetime_text ndb) b start],
          seq_reservations := seq_reservations d + 1\<rparr>"
    then obtain start where free: "\<not> checkForOverlaps d (b_table_id b) start (b_duration_minutes b)"
      and d': "snd (createReservation tz ndb njs d b) =
        d\<lparr>reservations := reservations d @
               [reservation_row (seq_reservations d + 1) (sqlite_datetime_text ndb) b start],
          seq_reservations := seq_reservations d + 1\<rparr>"
      by blast
    define r where "r = reservation_row (seq_reservations d + 1) (sqlite_datetime_text ndb) b start"
    have f: "table_id r = b_table_id b" "start_time r = start" "duration_minutes r = b_duration_minutes b"
      by (simp_all add: r_def reservation_row_def)
    have "\<not> list_ex (\<lambda>e. seconds_clash e r) (reservations d)"
    proof
      assume "list_ex (\<lambda>e. seconds_clash e r) (reservations d)"
      then obtain e where e: "e \<in> set (reservations d)" "seconds_clash e r"
        unfolding list_ex_iff by blast
      from seconds_clash_overlap_where[OF e(2)] e(1)
      have "checkForOverlaps d (b_table_id b) start (b_duration_minutes b)"
        unfolding checkForOverlaps_list_ex list_ex_iff f by blast
      with free show False by simp
    qed
    with assms show ?thesis
      by (simp add: d' r_def[symmetric] no_seconds_clash_snoc)
  qed
qed

lemma reachable_no_seconds_clash: "reachable d \<Longrightarrow> no_seconds_clash (reservations d)"
proof (induction rule: reachable.induct)
  case reachable_empty
  then show ?case by (simp add: empty_db_def)
next
  case (reachable_createRestaurant d now_db now_js b)
  then show ?case by (simp add: createRestaurant_reservations)
next
  case (reachable_addTable d param body)
  then show ?case by (simp add: addTable_reservations)
next
  case (reachable_createReservation d tz now_db now_js body)
  from this(2) show ?case by (rule createReservation_no_seconds_clash)
next
  case (reachable_cancelReservation d i)
  then show ?case
    using cancelReservation_reservations[of d i] no_seconds_clash_cancel[of "reservations d" i]
    by auto
qed

lemma double_booked_whole_seconds:
  assumes "start_time a mod 1000 = 0" "start_time b mod 1000 = 0"
    and "within_years a" "within_years b"
  shows "double_booked a b = seconds_clash a b"
proof -
  from assms(1) obtain x where x: "start_time a = 1000 * x" by auto
  from assms(2) obtain y where y: "start_time b = 1000 * y" by auto
  have "(1000 * x < 1000 * y + duration_minutes b * 60000) = (x < y + 60 * duration_minutes b)"
    "(1000 * y < 1000 * x + duration_minutes a * 60000) = (y < x + 60 * duration_minutes a)"
    by linarith+
  then show ?thesis
    using assms(3,4)
    by (simp add: double_booked_def seconds_clash_def intervals_intersect_def x y)
qed

lemma no_double_booking_whole_seconds:
  assumes "\<forall>r \<in> set rs. start_time r mod 1000 = 0 \<and> within_years r"
  shows "no_double_booking rs = no_seconds_clash rs"
  using assms
proof (induction rs)
  case Nil
  then show ?case by simp
next
  case (Cons r rs)
  have "list_ex (double_booked r) rs = list_ex (seconds_clash r) rs"
    unfolding list_ex_iff
  proof (rule bex_cong [OF refl])
    fix e assume "e \<in> set rs"
    with Cons.prems show "double_booked r e = seconds_clash r e"
      by (simp add: double_booked_whole_seconds)
  qed
  with Cons show ?case by simp
qed

lemma reachable_no_double_booking_whole_seconds:
  assumes "reachable d"
    and "\<forall>r \<in> set (reservations d). start_time r mod 1000 = 0 \<and> within_years r"
  shows "no_double_booking (reservations d)"
  using reachable_no_seconds_clash[OF assms(1)] no_double_booking_whole_seconds[OF assms(2)]
  by simp

end
